theory Spec2Isabelle
  imports Main "HOL-Library.FSet" "HOL-Library.AList"
begin

section \<open>Python values used by the CSV parser and comparer\<close>

text \<open>
  Column names are \<^typ>\<open>string\<close> (Python \<open>str\<close>). A cell is a \<open>str\<close> or \<open>None\<close>: the
  annotations of the source say \<open>Dict[str, str]\<close>, but \<open>csv.DictReader\<close> fills the cells that
  a short line leaves out with \<open>None\<close>, and the key values that \<open>compare\<close> passes around are
  cells. \<open>py_str\<close> is Python's \<open>str()\<close> on such a value.
\<close>

datatype py_val = PyStr string | PyNone

fun py_str :: "py_val \<Rightarrow> string" where
  "py_str (PyStr s) = s"
| "py_str PyNone = ''None''"

text \<open>
  A Python dictionary keeps its keys in insertion order and an assignment to an existing
  key keeps the key's position; a row is therefore an association list with the
  operations of \<open>AList\<close>: \<^const>\<open>AList.update\<close> is \<open>row[k] = v\<close>, \<^const>\<open>map_of\<close> finds the
  entry of a key. The entry that \<open>csv.DictReader\<close> stores under the key \<open>None\<close> for a line
  longer than the field names is not part of a row: the methods of the source carry it
  along and never read it, all their lookups are by column name.
\<close>

type_synonym row = "(string \<times> py_val) list"

text \<open>
  An f-string is kept as the list of its parts: literal or \<open>str\<close>-formatted text, and the
  \<open>repr\<close> of a list of names (whose exact quoting is Python's business).
\<close>

datatype fragment = Text string | ReprList "string list"

type_synonym message = "fragment list"

datatype error =
    ValueError message
  | TypeError message
  | FileNotFoundError message
  | UnicodeDecodeError message
  | KeyError string
  | IndexError
  | OSError
  | LookupError

subsection \<open>\<open>str(n)\<close> for the suffix counter\<close>

text \<open>
  The counters of \<open>_unique_vals\<close> start at 0 and are only incremented, so they are
  natural numbers; \<open>str_nat\<close> is Python's decimal \<open>str()\<close> on them.
\<close>

definition digit_char :: "nat \<Rightarrow> char" where
  "digit_char d = ''0123456789'' ! d"

function str_nat :: "nat \<Rightarrow> string" where
  "str_nat n =
     (if n < 10 then [digit_char n] else str_nat (n div 10) @ [digit_char (n mod 10)])"
  by pat_completeness auto
termination
  by (relation "measure id") auto

declare str_nat.simps [simp del]

text \<open>The f-string \<open>f"{val}.{suffix_counts[val]}"\<close>, a \<open>str\<close>.\<close>

definition suffixed :: "py_val \<Rightarrow> nat \<Rightarrow> py_val" where
  "suffixed val n = PyStr (py_str val @ ''.'' @ str_nat n)"

lemma digit_char_inj:
  assumes "a < 10" and "b < 10" and "digit_char a = digit_char b"
  shows "a = b"
proof -
  from assms(1) have "a \<in> {0,1,2,3,4,5,6,7,8,9}" by auto
  moreover from assms(2) have "b \<in> {0,1,2,3,4,5,6,7,8,9}" by auto
  ultimately show "a = b" using assms(3) by (auto simp: digit_char_def)
qed

lemma str_nat_nonempty: "str_nat n \<noteq> []"
  by (subst str_nat.simps) simp

lemma str_nat_inj: "str_nat a = str_nat b \<Longrightarrow> a = b"
proof (induction a arbitrary: b rule: str_nat.induct)
  case (1 n)
  show ?case
  proof (cases "n < 10")
    case True
    note small = this
    show ?thesis
    proof (cases "b < 10")
      case True
      with small "1.prems" show ?thesis
        by (simp add: str_nat.simps[of n] str_nat.simps[of b] digit_char_inj)
    next
      case False
      with small "1.prems" show ?thesis
        using str_nat_nonempty[of "b div 10"]
        by (simp add: str_nat.simps[of n] str_nat.simps[of b])
    qed
  next
    case False
    note big = this
    show ?thesis
    proof (cases "b < 10")
      case True
      with big "1.prems" show ?thesis
        using str_nat_nonempty[of "n div 10"]
        by (simp add: str_nat.simps[of n] str_nat.simps[of b])
    next
      case False
      with big "1.prems" have front: "str_nat (n div 10) = str_nat (b div 10)"
        and units: "digit_char (n mod 10) = digit_char (b mod 10)"
        by (simp_all add: str_nat.simps[of n] str_nat.simps[of b])
      from "1.IH"[OF big front] have "n div 10 = b div 10" .
      moreover from units have "n mod 10 = b mod 10"
        by (intro digit_char_inj) simp_all
      ultimately show ?thesis by (metis div_mult_mod_eq)
    qed
  qed
qed

lemma suffixed_inj: "suffixed v a = suffixed v b \<Longrightarrow> a = b"
  by (simp add: suffixed_def str_nat_inj)

lemma finite_suffix_hits: "finite {n. suffixed v n |\<in>| seen}"
proof -
  have "inj (suffixed v)" by (rule injI) (rule suffixed_inj)
  then have "finite (suffixed v -` fset seen)" by (intro finite_vimageI) simp_all
  then show ?thesis by (simp add: vimage_def)
qed

section \<open>\<open>CSVParser._unique_vals\<close>\<close>

text \<open>
  The inner \<open>while True\<close> loop: increment the counter of \<open>val\<close>, build the candidate,
  stop when the candidate is not in \<open>unique_values\<close>. It returns the counter it stopped
  at and the new name. The set \<open>unique_values\<close> is finite and the candidates are pairwise
  different, so the loop ends: the number of larger suffixes already taken decreases.
\<close>

function probe :: "py_val \<Rightarrow> nat \<Rightarrow> py_val fset \<Rightarrow> nat \<times> py_val" where
  "probe val c unique_values =
     (let c' = c + 1; new_val = suffixed val c'
      in if new_val |\<notin>| unique_values then (c', new_val) else probe val c' unique_values)"
  by pat_completeness auto
termination
proof (relation "measure (\<lambda>(val, c, seen). card {n. c < n \<and> suffixed val n |\<in>| seen})")
  show "wf (measure (\<lambda>(val, c, seen). card {n. c < n \<and> suffixed val n |\<in>| seen}))"
    by simp
next
  fix val :: py_val and c :: nat and seen :: "py_val fset" and x xa
  assume x: "x = c + 1" and xa: "xa = suffixed val x" and hit: "\<not> xa |\<notin>| seen"
  have fin: "finite {n. c < n \<and> suffixed val n |\<in>| seen}"
    using finite_suffix_hits[of val seen] by (rule rev_finite_subset) auto
  have "{n. x < n \<and> suffixed val n |\<in>| seen} \<subset> {n. c < n \<and> suffixed val n |\<in>| seen}"
    using x xa hit by auto
  then have "card {n. x < n \<and> suffixed val n |\<in>| seen}
      < card {n. c < n \<and> suffixed val n |\<in>| seen}"
    using fin by (rule psubset_card_mono[rotated])
  then show "((val, x, seen), (val, c, seen))
      \<in> measure (\<lambda>(val, c, seen). card {n. c < n \<and> suffixed val n |\<in>| seen})"
    by simp
qed

declare probe.simps [simp del]

text \<open>
  The \<open>for idx, val in enumerate(result)\<close> loop. \<open>unique_values\<close> is the Python set,
  \<open>suffix_counts\<close> the \<open>defaultdict(int)\<close> (a total function with default 0). The source
  overwrites \<open>result[idx]\<close> in a copy of the input; the model builds the same list from
  left to right. The values are column names (all \<open>str\<close>) or the cells of a column.
\<close>

fun unique_loop :: "py_val list \<Rightarrow> py_val fset \<Rightarrow> (py_val \<Rightarrow> nat) \<Rightarrow> py_val list" where
  "unique_loop [] unique_values suffix_counts = []"
| "unique_loop (val # rest) unique_values suffix_counts =
     (if val |\<notin>| unique_values
      then val # unique_loop rest (finsert val unique_values) suffix_counts
      else (case probe val (suffix_counts val) unique_values of
              (c, new_val) \<Rightarrow>
                new_val # unique_loop rest (finsert new_val unique_values)
                                      (suffix_counts(val := c))))"

definition unique_vals :: "py_val list \<Rightarrow> py_val list" where
  "unique_vals vals = unique_loop vals {||} (\<lambda>_. 0)"

text \<open>
  Two predicates for reasoning about the loop. \<open>counts_ok\<close> is its invariant: every suffix
  up to the counter of a name is already taken. \<open>renamed_at S val out\<close> says what one
  step does to \<open>val\<close> when \<open>S\<close> is the set of names already seen: a name not yet seen is
  kept, a name already seen gets the least positive suffix that gives an unseen name.
\<close>

definition counts_ok :: "py_val fset \<Rightarrow> (py_val \<Rightarrow> nat) \<Rightarrow> bool" where
  "counts_ok seen counts \<longleftrightarrow> (\<forall>v n. 0 < n \<and> n \<le> counts v \<longrightarrow> suffixed v n |\<in>| seen)"

definition renamed_at :: "py_val set \<Rightarrow> py_val \<Rightarrow> py_val \<Rightarrow> bool" where
  "renamed_at S val out \<longleftrightarrow>
     (if val \<notin> S then out = val
      else \<exists>n>0. out = suffixed val n \<and> suffixed val n \<notin> S \<and> (\<forall>m. 0 < m \<and> m < n \<longrightarrow> suffixed val m \<in> S))"

section \<open>The tabular dataset: \<open>CSVParser\<close>\<close>

text \<open>The attributes set by \<open>CSVParser.__init__\<close>; \<open>index_column_attr\<close> is \<open>_index_column\<close>.\<close>

record parser_state =
  list_of_dicts :: "row list"
  column_names :: "string list"
  file_text :: string
  index_column_attr :: string
  file_path :: string
  encoding :: string

definition CSVParser_init :: parser_state where
  "CSVParser_init =
     \<lparr>list_of_dicts = [], column_names = [], file_text = '''', index_column_attr = '''',
      file_path = '''', encoding = ''utf-8''\<rparr>"

text \<open>
  What the source takes from the standard library and from \<open>chardet\<close> is a parameter of
  the model: \<open>csv_reader\<close> is the list of rows \<open>csv.reader\<close> yields for a text,
  \<open>dict_reader\<close> the list of rows \<open>csv.DictReader(file, fieldnames)\<close> yields,
  \<open>chardet_detect\<close> the \<open>"encoding"\<close> entry of \<open>chardet.detect\<close>, \<open>decode\<close> the text read
  from a file's bytes under an encoding (or the exception raised), \<open>write_csv\<close> the bytes
  that \<open>csv.DictWriter\<close> writes through a file opened with an encoding. A file system maps
  the paths of regular files to their bytes.
\<close>

record extern =
  csv_reader :: "string \<Rightarrow> string list list"
  dict_reader :: "string \<Rightarrow> string list option \<Rightarrow> row list"
  chardet_detect :: "string \<Rightarrow> string option"
  decode :: "string \<Rightarrow> string \<Rightarrow> error + string"
  write_csv :: "string \<Rightarrow> string list \<Rightarrow> row list \<Rightarrow> error + string"

type_synonym file_system = "string \<rightharpoonup> string"

text \<open>An element of a caller-supplied list of column names: a \<open>str\<close> or any other object.\<close>

datatype py_obj = Str string | NotStr

fun is_str :: "py_obj \<Rightarrow> bool" where
  "is_str (Str s) = True"
| "is_str NotStr = False"

fun str_values :: "py_obj list \<Rightarrow> string list" where
  "str_values [] = []"
| "str_values (Str s # xs) = s # str_values xs"
| "str_values (NotStr # xs) = str_values xs"

subsection \<open>Construction\<close>

text \<open>
  The header row is a list of \<open>str\<close>, and so is what \<open>_unique_vals\<close> makes of it: \<open>PyStr\<close>
  and \<open>py_str\<close> only move between the two types.
\<close>

definition get_column_names_from_header_row :: "extern \<Rightarrow> string \<Rightarrow> string list" where
  "get_column_names_from_header_row ext text =
     (case csv_reader ext text of
        [] \<Rightarrow> []
      | header_row # _ \<Rightarrow> map py_str (unique_vals (map PyStr header_row)))"

text \<open>
  \<open>from_csv_text\<close>: the type check runs only on a non-empty supplied list; the header
  row is used when the list is \<open>None\<close> or empty; \<open>DictReader\<close> gets the caller's
  argument as it is.
\<close>

definition from_csv_text :: "extern \<Rightarrow> string \<Rightarrow> py_obj list option \<Rightarrow> error + parser_state" where
  "from_csv_text ext text column_names_arg =
     (case column_names_arg of
        None \<Rightarrow>
          Inr (CSVParser_init
                 \<lparr>file_path := ''init from text'', file_text := text,
                  column_names := get_column_names_from_header_row ext text,
                  list_of_dicts := dict_reader ext text None\<rparr>)
      | Some cols \<Rightarrow>
          if cols \<noteq> [] \<and> \<not> list_all is_str cols
          then Inl (TypeError [Text ''All column names must be strings''])
          else Inr (CSVParser_init
                 \<lparr>file_path := ''init from text'', file_text := text,
                  column_names :=
                    (if cols = [] then get_column_names_from_header_row ext text
                     else str_values cols),
                  list_of_dicts := dict_reader ext text (Some (str_values cols))\<rparr>))"

text \<open>\<open>"\n".join(csv_lines)\<close>\<close>

fun join_lines :: "string list \<Rightarrow> string" where
  "join_lines [] = []"
| "join_lines [l] = l"
| "join_lines (l # ls) = l @ [CHR 0x0A] @ join_lines ls"

definition from_lines :: "extern \<Rightarrow> string list \<Rightarrow> py_obj list option \<Rightarrow> error + parser_state" where
  "from_lines ext csv_lines column_names_arg =
     (case from_csv_text ext (join_lines csv_lines) column_names_arg of
        Inl e \<Rightarrow> Inl e
      | Inr p \<Rightarrow> Inr (p\<lparr>file_path := ''init from lines''\<rparr>))"

text \<open>
  \<open>from_file\<close>: \<open>get_encoding\<close> reads the bytes and asks \<open>chardet\<close>; a missing or empty
  answer, an \<open>OSError\<close> or a \<open>LookupError\<close> gives \<open>utf-8\<close>. A \<open>UnicodeDecodeError\<close> of the
  read is raised again with a longer reason; any other exception passes through.
\<close>

definition get_encoding :: "extern \<Rightarrow> file_system \<Rightarrow> string \<Rightarrow> error + string option" where
  "get_encoding ext fs path =
     (case fs path of
        None \<Rightarrow> Inl OSError
      | Some rawdata \<Rightarrow> Inr (chardet_detect ext rawdata))"

definition from_file ::
  "extern \<Rightarrow> file_system \<Rightarrow> string \<Rightarrow> py_obj list option \<Rightarrow> error + parser_state" where
  "from_file ext fs path column_names_arg =
     (case fs path of
        None \<Rightarrow> Inl (FileNotFoundError [Text ''File not found: '', Text path])
      | Some rawdata \<Rightarrow>
          (case (case get_encoding ext fs path of
                   Inr (Some enc) \<Rightarrow> Inr (if enc = [] then ''utf-8'' else enc)
                 | Inr None \<Rightarrow> Inr ''utf-8''
                 | Inl OSError \<Rightarrow> Inr ''utf-8''
                 | Inl LookupError \<Rightarrow> Inr ''utf-8''
                 | Inl e \<Rightarrow> Inl e) of
             Inl e \<Rightarrow> Inl e
           | Inr enc \<Rightarrow>
               (case decode ext enc rawdata of
                  Inl (UnicodeDecodeError reason) \<Rightarrow>
                    Inl (UnicodeDecodeError
                           ([Text ''Failed to decode '', Text path, Text '' with encoding '',
                             Text enc, Text '': ''] @ reason))
                | Inl e \<Rightarrow> Inl e
                | Inr text \<Rightarrow>
                    (case from_csv_text ext text column_names_arg of
                       Inl e \<Rightarrow> Inl e
                     | Inr p \<Rightarrow> Inr (p\<lparr>file_path := path, encoding := enc\<rparr>)))))"

subsection \<open>Reads\<close>

text \<open>\<open>row.get(column_name)\<close>: the cell, or \<open>None\<close> when the row has no entry for the column.\<close>

definition row_get :: "row \<Rightarrow> string \<Rightarrow> py_val" where
  "row_get x column_name = (case map_of x column_name of None \<Rightarrow> PyNone | Some v \<Rightarrow> v)"

text \<open>
  The filter \<open>row.get(column_name) == row_value\<close>. The value looked for is a \<open>str\<close> by the
  annotation; \<open>compare\<close> passes the cells of the key column.
\<close>

definition get_rows :: "parser_state \<Rightarrow> string \<Rightarrow> py_val \<Rightarrow> row list" where
  "get_rows p column_name row_value =
     (if column_name \<in> set (column_names p)
      then filter (\<lambda>row. row_get row column_name = row_value) (list_of_dicts p)
      else [])"

definition get_row :: "parser_state \<Rightarrow> string \<Rightarrow> py_val \<Rightarrow> row" where
  "get_row p column_name row_value =
     (case get_rows p column_name row_value of
        [] \<Rightarrow> []
      | r # _ \<Rightarrow> r)"

text \<open>
  \<open>x.get(column_name, "")\<close>: the cell, whatever it holds, or the empty text when the row has
  no entry for the column.
\<close>

definition get_or_empty :: "row \<Rightarrow> string \<Rightarrow> py_val" where
  "get_or_empty x column_name =
     (case map_of x column_name of None \<Rightarrow> PyStr '''' | Some v \<Rightarrow> v)"

definition CSVParser_row_values_in_column :: "parser_state \<Rightarrow> string \<Rightarrow> py_val list" where
  "CSVParser_row_values_in_column p column_name =
     (if column_name \<in> set (column_names p)
      then map (\<lambda>x. get_or_empty x column_name) (list_of_dicts p)
      else [])"

text \<open>
  The getter of \<open>index_column\<close>: \<open>self._index_column or self.column_names[0]\<close> takes the
  first column whenever the stored name is the empty string.
\<close>

definition CSVParser_index_column :: "parser_state \<Rightarrow> error + string" where
  "CSVParser_index_column p =
     (case column_names p of
        [] \<Rightarrow> Inl (ValueError [Text ''No columns available to set or get the index column''])
      | c # _ \<Rightarrow> Inr (if index_column_attr p \<noteq> [] then index_column_attr p else c))"

definition CSVParser_get_value :: "parser_state \<Rightarrow> py_val \<Rightarrow> string \<Rightarrow> error + py_val" where
  "CSVParser_get_value p row_value_in_index_column column_name =
     (case CSVParser_index_column p of
        Inl e \<Rightarrow> Inl e
      | Inr k \<Rightarrow> Inr (get_or_empty (get_row p k row_value_in_index_column) column_name))"

subsection \<open>The setter of \<open>index_column\<close>\<close>

text \<open>
  The loop \<open>for idx, row in enumerate(self.list_of_dicts): row[self.index_column] = row_vals[idx]\<close>.
  The getter is read again for every row; \<open>row_vals\<close> is consumed in step with the rows.
\<close>

fun write_index :: "parser_state \<Rightarrow> row list \<Rightarrow> py_val list \<Rightarrow> error + row list" where
  "write_index p [] row_vals = Inr []"
| "write_index p (row # rows) [] = Inl IndexError"
| "write_index p (row # rows) (v # row_vals) =
     (case CSVParser_index_column p of
        Inl e \<Rightarrow> Inl e
      | Inr k \<Rightarrow>
          (case write_index p rows row_vals of
             Inl e \<Rightarrow> Inl e
           | Inr rows' \<Rightarrow> Inr (AList.update k v row # rows')))"

definition CSVParser_set_index_column :: "parser_state \<Rightarrow> string \<Rightarrow> error + parser_state" where
  "CSVParser_set_index_column p v =
     (if column_names p = []
      then Inl (ValueError [Text ''No columns available to set the index column''])
      else if v \<notin> set (column_names p)
      then Inl (ValueError [Text ''Column '', Text [CHR 0x27], Text v, Text [CHR 0x27],
                            Text '' not found in column names''])
      else
        let p1 = p\<lparr>index_column_attr := v\<rparr>;
            row_vals = unique_vals (CSVParser_row_values_in_column p1 (index_column_attr p1))
        in (case write_index p1 (list_of_dicts p1) row_vals of
              Inl e \<Rightarrow> Inl e
            | Inr rows' \<Rightarrow> Inr (p1\<lparr>list_of_dicts := rows'\<rparr>)))"

text \<open>The key that the loop of the setter writes to, once \<open>v\<close> is stored.\<close>

definition index_key :: "parser_state \<Rightarrow> string \<Rightarrow> string" where
  "index_key p v = (if v \<noteq> [] then v else hd (column_names p))"

subsection \<open>Mutations\<close>

text \<open>
  \<open>str.strip()\<close> removes the characters for which \<open>str.isspace\<close> holds from both ends. A
  \<^typ>\<open>char\<close> is a code point below 256; the white space there is 9 to 13, 28 to 32, 133
  and 160.
\<close>

definition isspace :: "char \<Rightarrow> bool" where
  "isspace c =
     (let n = (of_char c :: nat)
      in (9 \<le> n \<and> n \<le> 13) \<or> (28 \<le> n \<and> n \<le> 32) \<or> n = 133 \<or> n = 160)"

definition strip :: "string \<Rightarrow> string" where
  "strip s = rev (dropWhile isspace (rev (dropWhile isspace s)))"

text \<open>
  Building a dictionary from a sequence of items (a comprehension, or \<open>dict(zip(...))\<close>):
  the items are inserted from left to right, a key that is already there gets the new
  value and keeps its place.
\<close>

definition dict_of_items :: "(string \<times> py_val) list \<Rightarrow> row" where
  "dict_of_items items = fold (\<lambda>(key, val) d. AList.update key val d) items []"

text \<open>\<open>value.strip() if isinstance(value, str) else value\<close>\<close>

fun strip_val :: "py_val \<Rightarrow> py_val" where
  "strip_val (PyStr s) = PyStr (strip s)"
| "strip_val PyNone = PyNone"

text \<open>
  \<open>{key.strip(): value.strip() for key, value in item.items()}\<close>, with the type tests of
  the source: a key is a \<open>str\<close>, a value is stripped when it is one.
\<close>

definition strip_row :: "row \<Rightarrow> row" where
  "strip_row item = dict_of_items (map (\<lambda>(key, val). (strip key, strip_val val)) item)"

definition CSVParser_strip_whitespace :: "parser_state \<Rightarrow> parser_state" where
  "CSVParser_strip_whitespace p =
     p\<lparr>list_of_dicts := map strip_row (list_of_dicts p),
       column_names := map strip (column_names p),
       index_column_attr := strip (index_column_attr p)\<rparr>"

text \<open>A caller's function may raise: list comprehensions stop at the first exception.\<close>

fun map_raise :: "('a \<Rightarrow> error + 'b) \<Rightarrow> 'a list \<Rightarrow> error + 'b list" where
  "map_raise f [] = Inr []"
| "map_raise f (x # xs) =
     (case f x of
        Inl e \<Rightarrow> Inl e
      | Inr y \<Rightarrow> (case map_raise f xs of Inl e \<Rightarrow> Inl e | Inr ys \<Rightarrow> Inr (y # ys)))"

fun filter_raise :: "('a \<Rightarrow> error + bool) \<Rightarrow> 'a list \<Rightarrow> error + 'a list" where
  "filter_raise f [] = Inr []"
| "filter_raise f (x # xs) =
     (case f x of
        Inl e \<Rightarrow> Inl e
      | Inr b \<Rightarrow>
          (case filter_raise f xs of
             Inl e \<Rightarrow> Inl e
           | Inr ys \<Rightarrow> Inr (if b then x # ys else ys)))"

definition CSVParser_apply_transform ::
  "parser_state \<Rightarrow> string \<Rightarrow> (row \<Rightarrow> error + py_val) \<Rightarrow> error + parser_state" where
  "CSVParser_apply_transform p column_name func =
     (case map_raise (\<lambda>item. case func item of
                                Inl e \<Rightarrow> Inl e
                              | Inr v \<Rightarrow> Inr (AList.update column_name v item))
                     (list_of_dicts p) of
        Inl e \<Rightarrow> Inl e
      | Inr rows \<Rightarrow>
          Inr (p\<lparr>list_of_dicts := rows,
                 column_names :=
                   (if column_name \<notin> set (column_names p) then column_names p @ [column_name]
                    else column_names p)\<rparr>))"

definition CSVParser_drop_columns :: "parser_state \<Rightarrow> string list \<Rightarrow> parser_state" where
  "CSVParser_drop_columns p names =
     p\<lparr>list_of_dicts :=
         map (\<lambda>dict_row. filter (\<lambda>(key, val). key \<notin> set names) dict_row) (list_of_dicts p),
       column_names := filter (\<lambda>col_name. col_name \<notin> set names) (column_names p)\<rparr>"

definition CSVParser_drop_rows_by ::
  "parser_state \<Rightarrow> (row \<Rightarrow> error + bool) \<Rightarrow> error + parser_state" where
  "CSVParser_drop_rows_by p predicate =
     (case filter_raise (\<lambda>dict_row. case predicate dict_row of
                                       Inl e \<Rightarrow> Inl e
                                     | Inr b \<Rightarrow> Inr (\<not> b))
                        (list_of_dicts p) of
        Inl e \<Rightarrow> Inl e
      | Inr rows \<Rightarrow> Inr (p\<lparr>list_of_dicts := rows\<rparr>))"

text \<open>
  \<open>x[column_name]\<close> raises \<open>KeyError\<close> on a row without the column; \<open>row_values\<close> is a list
  of \<open>str\<close>.
\<close>

definition CSVParser_drop_rows ::
  "parser_state \<Rightarrow> string \<Rightarrow> string list \<Rightarrow> error + parser_state" where
  "CSVParser_drop_rows p column_name row_values =
     (if column_name \<notin> set (column_names p) then Inr p
      else CSVParser_drop_rows_by p
             (\<lambda>x. case map_of x column_name of
                     None \<Rightarrow> Inl (KeyError column_name)
                   | Some v \<Rightarrow> Inr (v \<in> set (map PyStr row_values))))"

text \<open>
  \<open>set_value\<close> assigns through the dictionary \<open>get_row\<close> returned, the first matching row of
  \<open>list_of_dicts\<close>; \<open>replace_first\<close> writes that row back at its place.
\<close>

fun replace_first :: "('a \<Rightarrow> bool) \<Rightarrow> 'a \<Rightarrow> 'a list \<Rightarrow> 'a list" where
  "replace_first P y [] = []"
| "replace_first P y (x # xs) = (if P x then y # xs else x # replace_first P y xs)"

definition CSVParser_set_value ::
  "parser_state \<Rightarrow> py_val \<Rightarrow> string \<Rightarrow> string \<Rightarrow> error + parser_state" where
  "CSVParser_set_value p row_value_in_index_column column_name new_value =
     (case CSVParser_index_column p of
        Inl e \<Rightarrow> Inl e
      | Inr k \<Rightarrow>
          let row = get_row p k row_value_in_index_column
          in if row \<noteq> [] \<and> column_name \<in> fst ` set row
             then Inr (p\<lparr>list_of_dicts :=
                           replace_first (\<lambda>r. row_get r k = row_value_in_index_column)
                             (AList.update column_name (PyStr new_value) row)
                             (list_of_dicts p)\<rparr>)
             else Inr p)"

text \<open>
  \<open>write_to_file\<close>: only on an existing file; the rows are cut down to the current
  columns before they are written.
\<close>

definition CSVParser_write_to_file ::
  "extern \<Rightarrow> file_system \<Rightarrow> parser_state \<Rightarrow> error + file_system" where
  "CSVParser_write_to_file ext fs p =
     (if fs (file_path p) = None
      then Inl (ValueError
                  [Text ''Cannot write: '', Text [CHR 0x27], Text (file_path p), Text [CHR 0x27],
                   Text '' is not a valid file path. '',
                   Text ''write_to_file is only supported when initialized via from_file.''])
      else
        let normalized_rows =
              map (\<lambda>row. filter (\<lambda>(key, val). key \<in> set (column_names p)) row) (list_of_dicts p)
        in (case write_csv ext (encoding p) (column_names p) normalized_rows of
              Inl e \<Rightarrow> Inl e
            | Inr data \<Rightarrow> Inr (fs(file_path p \<mapsto> data))))"

section \<open>The null dataset: \<open>NullCSVParser\<close>\<close>

text \<open>
  The subclass has the same attributes, with the origin \<open>"null"\<close>, and overrides the
  methods below; \<open>get_row\<close> and \<open>get_rows\<close> are inherited.
\<close>

definition NullCSVParser_init :: parser_state where
  "NullCSVParser_init =
     \<lparr>list_of_dicts = [], column_names = [], file_text = '''', index_column_attr = '''',
      file_path = ''null'', encoding = ''utf-8''\<rparr>"

definition NullCSVParser_strip_whitespace :: "parser_state \<Rightarrow> parser_state" where
  "NullCSVParser_strip_whitespace p = p"

definition NullCSVParser_apply_transform ::
  "parser_state \<Rightarrow> string \<Rightarrow> (row \<Rightarrow> error + py_val) \<Rightarrow> error + parser_state" where
  "NullCSVParser_apply_transform p column_name func = Inr p"

definition NullCSVParser_drop_columns :: "parser_state \<Rightarrow> string list \<Rightarrow> parser_state" where
  "NullCSVParser_drop_columns p names = p"

definition NullCSVParser_drop_rows_by ::
  "parser_state \<Rightarrow> (row \<Rightarrow> error + bool) \<Rightarrow> error + parser_state" where
  "NullCSVParser_drop_rows_by p predicate = Inr p"

definition NullCSVParser_drop_rows ::
  "parser_state \<Rightarrow> string \<Rightarrow> string list \<Rightarrow> error + parser_state" where
  "NullCSVParser_drop_rows p column_name row_values = Inr p"

definition NullCSVParser_row_values_in_column :: "parser_state \<Rightarrow> string \<Rightarrow> py_val list" where
  "NullCSVParser_row_values_in_column p column_name = []"

definition NullCSVParser_get_value :: "parser_state \<Rightarrow> py_val \<Rightarrow> string \<Rightarrow> error + py_val" where
  "NullCSVParser_get_value p row_value_in_index_column column_name = Inr (PyStr '''')"

definition NullCSVParser_set_value ::
  "parser_state \<Rightarrow> py_val \<Rightarrow> string \<Rightarrow> string \<Rightarrow> error + parser_state" where
  "NullCSVParser_set_value p row_value_in_index_column column_name new_value = Inr p"

definition NullCSVParser_index_column :: "parser_state \<Rightarrow> error + string" where
  "NullCSVParser_index_column p = Inr (index_column_attr p)"

definition NullCSVParser_set_index_column :: "parser_state \<Rightarrow> string \<Rightarrow> error + parser_state" where
  "NullCSVParser_set_index_column p v = Inr p"

definition NullCSVParser_write_to_file ::
  "extern \<Rightarrow> file_system \<Rightarrow> parser_state \<Rightarrow> error + file_system" where
  "NullCSVParser_write_to_file ext fs p = Inr fs"

section \<open>A dataset is an object of either class\<close>

datatype dataset = CSVParser parser_state | NullCSVParser parser_state

fun attrs :: "dataset \<Rightarrow> parser_state" where
  "attrs (CSVParser p) = p"
| "attrs (NullCSVParser p) = p"

fun strip_whitespace :: "dataset \<Rightarrow> dataset" where
  "strip_whitespace (CSVParser p) = CSVParser (CSVParser_strip_whitespace p)"
| "strip_whitespace (NullCSVParser p) = NullCSVParser (NullCSVParser_strip_whitespace p)"

fun apply_transform :: "dataset \<Rightarrow> string \<Rightarrow> (row \<Rightarrow> error + py_val) \<Rightarrow> error + dataset" where
  "apply_transform (CSVParser p) column_name func =
     map_sum id CSVParser (CSVParser_apply_transform p column_name func)"
| "apply_transform (NullCSVParser p) column_name func =
     map_sum id NullCSVParser (NullCSVParser_apply_transform p column_name func)"

fun drop_columns :: "dataset \<Rightarrow> string list \<Rightarrow> dataset" where
  "drop_columns (CSVParser p) names = CSVParser (CSVParser_drop_columns p names)"
| "drop_columns (NullCSVParser p) names = NullCSVParser (NullCSVParser_drop_columns p names)"

fun drop_rows_by :: "dataset \<Rightarrow> (row \<Rightarrow> error + bool) \<Rightarrow> error + dataset" where
  "drop_rows_by (CSVParser p) predicate =
     map_sum id CSVParser (CSVParser_drop_rows_by p predicate)"
| "drop_rows_by (NullCSVParser p) predicate =
     map_sum id NullCSVParser (NullCSVParser_drop_rows_by p predicate)"

fun drop_rows :: "dataset \<Rightarrow> string \<Rightarrow> string list \<Rightarrow> error + dataset" where
  "drop_rows (CSVParser p) column_name row_values =
     map_sum id CSVParser (CSVParser_drop_rows p column_name row_values)"
| "drop_rows (NullCSVParser p) column_name row_values =
     map_sum id NullCSVParser (NullCSVParser_drop_rows p column_name row_values)"

fun row_values_in_column :: "dataset \<Rightarrow> string \<Rightarrow> py_val list" where
  "row_values_in_column (CSVParser p) column_name = CSVParser_row_values_in_column p column_name"
| "row_values_in_column (NullCSVParser p) column_name =
     NullCSVParser_row_values_in_column p column_name"

fun get_value :: "dataset \<Rightarrow> py_val \<Rightarrow> string \<Rightarrow> error + py_val" where
  "get_value (CSVParser p) row_value column_name = CSVParser_get_value p row_value column_name"
| "get_value (NullCSVParser p) row_value column_name =
     NullCSVParser_get_value p row_value column_name"

fun set_value :: "dataset \<Rightarrow> py_val \<Rightarrow> string \<Rightarrow> string \<Rightarrow> error + dataset" where
  "set_value (CSVParser p) row_value column_name new_value =
     map_sum id CSVParser (CSVParser_set_value p row_value column_name new_value)"
| "set_value (NullCSVParser p) row_value column_name new_value =
     map_sum id NullCSVParser (NullCSVParser_set_value p row_value column_name new_value)"

fun index_column :: "dataset \<Rightarrow> error + string" where
  "index_column (CSVParser p) = CSVParser_index_column p"
| "index_column (NullCSVParser p) = NullCSVParser_index_column p"

fun set_index_column :: "dataset \<Rightarrow> string \<Rightarrow> error + dataset" where
  "set_index_column (CSVParser p) v = map_sum id CSVParser (CSVParser_set_index_column p v)"
| "set_index_column (NullCSVParser p) v =
     map_sum id NullCSVParser (NullCSVParser_set_index_column p v)"

fun write_to_file :: "extern \<Rightarrow> file_system \<Rightarrow> dataset \<Rightarrow> error + file_system" where
  "write_to_file ext fs (CSVParser p) = CSVParser_write_to_file ext fs p"
| "write_to_file ext fs (NullCSVParser p) = NullCSVParser_write_to_file ext fs p"

section \<open>The comparison engine: \<open>CSVComparer\<close>\<close>

record csv_compare_output =
  match_result :: bool
  first_file :: string
  second_file :: string
  extra_cols_in_first_file :: "string list"
  extra_cols_in_second_file :: "string list"
  extra_rows_in_first_file :: "py_val list"
  extra_rows_in_second_file :: "py_val list"
  mismatched_rows :: "row list"

text \<open>The two attributes of a \<open>CSVComparer\<close>, named as in \<open>from_csv_parsers\<close>.\<close>

record csv_comparer =
  first_file_parser :: dataset
  second_file_parser :: dataset

definition CSVComparer_init :: csv_comparer where
  "CSVComparer_init =
     \<lparr>first_file_parser = NullCSVParser NullCSVParser_init,
      second_file_parser = NullCSVParser NullCSVParser_init\<rparr>"

definition from_csv_parsers :: "dataset \<Rightarrow> dataset \<Rightarrow> csv_comparer" where
  "from_csv_parsers first_parser second_parser =
     CSVComparer_init\<lparr>first_file_parser := first_parser, second_file_parser := second_parser\<rparr>"

definition CSVComparer_from_lines ::
  "extern \<Rightarrow> string list \<Rightarrow> string list \<Rightarrow> error + csv_comparer" where
  "CSVComparer_from_lines ext first_file_lines second_file_lines =
     (case from_lines ext first_file_lines None of
        Inl e \<Rightarrow> Inl e
      | Inr f \<Rightarrow>
          (case from_lines ext second_file_lines None of
             Inl e \<Rightarrow> Inl e
           | Inr s \<Rightarrow>
               Inr (CSVComparer_init\<lparr>first_file_parser := CSVParser f,
                                      second_file_parser := CSVParser s\<rparr>)))"

text \<open>
  Python sets. The order in which a set is iterated is an accident of hashing; the model
  keeps a set as a list without repetitions, so \<open>list(a - b)\<close> and \<open>list(a & b)\<close> come out
  in one fixed order. The statements below about these lists are about their elements
  and about each element occurring once.
\<close>

definition py_set :: "'a list \<Rightarrow> 'a list" where
  "py_set xs = remdups xs"

definition set_diff :: "'a list \<Rightarrow> 'a list \<Rightarrow> 'a list" where
  "set_diff a b = filter (\<lambda>x. x \<notin> set b) a"

definition set_inter :: "'a list \<Rightarrow> 'a list \<Rightarrow> 'a list" where
  "set_inter a b = filter (\<lambda>x. x \<in> set b) a"

text \<open>A loop that appends to a list and stops at the first exception of its body.\<close>

fun collect :: "('a \<Rightarrow> error + 'b list) \<Rightarrow> 'a list \<Rightarrow> error + 'b list" where
  "collect body [] = Inr []"
| "collect body (x # xs) =
     (case body x of
        Inl e \<Rightarrow> Inl e
      | Inr ys \<Rightarrow> (case collect body xs of Inl e \<Rightarrow> Inl e | Inr zs \<Rightarrow> Inr (ys @ zs)))"

text \<open>The body of the inner loop of \<open>compare\<close>.\<close>

definition compare_cell :: "dataset \<Rightarrow> dataset \<Rightarrow> py_val \<Rightarrow> string \<Rightarrow> error + row list" where
  "compare_cell f s r column =
     (case get_value f r column of
        Inl e \<Rightarrow> Inl e
      | Inr first_val \<Rightarrow>
          (case get_value s r column of
             Inl e \<Rightarrow> Inl e
           | Inr second_val \<Rightarrow>
               Inr (if first_val \<noteq> second_val
                    then [[(''row'', r), (''column'', PyStr column),
                           (''first'', first_val), (''second'', second_val)]]
                    else [])))"

text \<open>
  \<open>compare\<close> returns the report and leaves the comparer with both datasets re-indexed.
\<close>

definition compare :: "csv_comparer \<Rightarrow> string \<Rightarrow> error + (csv_compare_output \<times> csv_comparer)" where
  "compare c index_col =
     (if index_col \<notin> set (column_names (attrs (first_file_parser c)))
      then Inl (ValueError
                  [Text ''Index column '', Text [CHR 0x27], Text index_col, Text [CHR 0x27],
                   Text '' not found in first file. Available columns: '',
                   ReprList (column_names (attrs (first_file_parser c)))])
      else if index_col \<notin> set (column_names (attrs (second_file_parser c)))
      then Inl (ValueError
                  [Text ''Index column '', Text [CHR 0x27], Text index_col, Text [CHR 0x27],
                   Text '' not found in second file. Available columns: '',
                   ReprList (column_names (attrs (second_file_parser c)))])
      else
        (case set_index_column (first_file_parser c) index_col of
           Inl e \<Rightarrow> Inl e
         | Inr f \<Rightarrow>
        (case set_index_column (second_file_parser c) index_col of
           Inl e \<Rightarrow> Inl e
         | Inr s \<Rightarrow>
        let first_cols = py_set (column_names (attrs f));
            second_cols = py_set (column_names (attrs s));
            first_rows = py_set (row_values_in_column f index_col);
            second_rows = py_set (row_values_in_column s index_col);
            extra_cols_first = set_diff first_cols second_cols;
            extra_cols_second = set_diff second_cols first_cols;
            extra_rows_first = set_diff first_rows second_rows;
            extra_rows_second = set_diff second_rows first_rows;
            common_columns = set_inter first_cols second_cols;
            common_rows = set_inter first_rows second_rows
        in (case collect (\<lambda>r. collect (\<lambda>column. compare_cell f s r column) common_columns)
                         common_rows of
              Inl e \<Rightarrow> Inl e
            | Inr mismatched \<Rightarrow>
                Inr (\<lparr>match_result =
                        (extra_cols_first = [] \<and> extra_cols_second = [] \<and>
                         extra_rows_first = [] \<and> extra_rows_second = [] \<and> mismatched = []),
                      first_file = file_path (attrs f),
                      second_file = file_path (attrs s),
                      extra_cols_in_first_file = extra_cols_first,
                      extra_cols_in_second_file = extra_cols_second,
                      extra_rows_in_first_file = extra_rows_first,
                      extra_rows_in_second_file = extra_rows_second,
                      mismatched_rows = mismatched\<rparr>,
                     c\<lparr>first_file_parser := f, second_file_parser := s\<rparr>)))))"

section \<open>The library on the inputs of the examples\<close>

text \<open>
  The examples below need the answers of the \<open>csv\<close> module on a few concrete texts.
  \<open>test_tables\<close> lists, for each text, the rows \<open>csv.reader\<close> yields on it: the header
  with a repeated name of \<open>test_parsing_duplicate_column_names\<close>, a header that ends in a
  comma (its second column name is empty), the two files of the end-to-end example of the
  specification, two files that differ in a column, and a file whose data line is shorter
  than its header. On any other text \<open>test_reader\<close> yields no rows, as \<open>csv.reader\<close> does on
  the empty text.

  \<open>dict_reader_row\<close> is what \<open>csv.DictReader\<close> makes of a line that is not longer than the
  field names: \<open>dict(zip(fieldnames, row))\<close>, then \<open>None\<close> for every field name the line
  does not reach. No line of the tables is empty or longer than the first line.
\<close>

definition test_tables :: "(string \<times> string list list) list" where
  "test_tables =
     [(join_lines [''column 1,column 2,column 1'', ''row 1,row 1:2,row 1:1''],
       [[''column 1'', ''column 2'', ''column 1''], [''row 1'', ''row 1:2'', ''row 1:1'']]),
      (join_lines [''a,'', ''1,x'', ''2,x''],
       [[''a'', ''''], [''1'', ''x''], [''2'', ''x'']]),
      (join_lines [''c1,c2'', ''r1,v1'', ''r2,v2'', ''r3,MISMATCH''],
       [[''c1'', ''c2''], [''r1'', ''v1''], [''r2'', ''v2''], [''r3'', ''MISMATCH'']]),
      (join_lines [''c1,c2'', ''r1,v1'', ''r2,v2'', ''r3,v3''],
       [[''c1'', ''c2''], [''r1'', ''v1''], [''r2'', ''v2''], [''r3'', ''v3'']]),
      (join_lines [''k,x,z'', ''1,a,c''], [[''k'', ''x'', ''z''], [''1'', ''a'', ''c'']]),
      (join_lines [''k,y'', ''1,b''], [[''k'', ''y''], [''1'', ''b'']]),
      (join_lines [''a,b'', ''1''], [[''a'', ''b''], [''1'']])]"

definition test_reader :: "string \<Rightarrow> string list list" where
  "test_reader text = (case map_of test_tables text of None \<Rightarrow> [] | Some rows \<Rightarrow> rows)"

definition dict_reader_row :: "string list \<Rightarrow> string list \<Rightarrow> row" where
  "dict_reader_row fieldnames r =
     fold (\<lambda>key d. AList.update key PyNone d) (drop (length r) fieldnames)
       (dict_of_items (zip fieldnames (map PyStr r)))"

definition test_dict_reader :: "string \<Rightarrow> string list option \<Rightarrow> row list" where
  "test_dict_reader text fieldnames =
     (case fieldnames of
        None \<Rightarrow>
          (case test_reader text of
             [] \<Rightarrow> []
           | header # rows \<Rightarrow> map (dict_reader_row header) rows)
      | Some names \<Rightarrow> map (dict_reader_row names) (test_reader text))"

definition test_extern :: extern where
  "test_extern =
     \<lparr>csv_reader = test_reader, dict_reader = test_dict_reader,
      chardet_detect = (\<lambda>rawdata. None), decode = (\<lambda>enc rawdata. Inr rawdata),
      write_csv = (\<lambda>enc fieldnames rows. Inr [])\<rparr>"

text \<open>
  The two files of the end-to-end example as lists of lines, the datasets \<open>from_lines\<close>
  builds from them, the comparer over the two and its report; and the dataset built from
  the lines \<open>a,\<close> / \<open>1,x\<close> / \<open>2,x\<close>, whose second column has the empty name.
\<close>

definition example_first_lines :: "string list" where
  "example_first_lines = [''c1,c2'', ''r1,v1'', ''r2,v2'', ''r3,MISMATCH'']"

definition example_second_lines :: "string list" where
  "example_second_lines = [''c1,c2'', ''r1,v1'', ''r2,v2'', ''r3,v3'']"

definition example_first :: parser_state where
  "example_first =
     \<lparr>list_of_dicts =
        [[(''c1'', PyStr ''r1''), (''c2'', PyStr ''v1'')],
         [(''c1'', PyStr ''r2''), (''c2'', PyStr ''v2'')],
         [(''c1'', PyStr ''r3''), (''c2'', PyStr ''MISMATCH'')]],
      column_names = [''c1'', ''c2''],
      file_text = join_lines example_first_lines,
      index_column_attr = '''', file_path = ''init from lines'', encoding = ''utf-8''\<rparr>"

definition example_second :: parser_state where
  "example_second =
     \<lparr>list_of_dicts =
        [[(''c1'', PyStr ''r1''), (''c2'', PyStr ''v1'')],
         [(''c1'', PyStr ''r2''), (''c2'', PyStr ''v2'')],
         [(''c1'', PyStr ''r3''), (''c2'', PyStr ''v3'')]],
      column_names = [''c1'', ''c2''],
      file_text = join_lines example_second_lines,
      index_column_attr = '''', file_path = ''init from lines'', encoding = ''utf-8''\<rparr>"

definition example_comparer :: csv_comparer where
  "example_comparer =
     \<lparr>first_file_parser = CSVParser example_first,
      second_file_parser = CSVParser example_second\<rparr>"

definition example_report :: csv_compare_output where
  "example_report =
     \<lparr>match_result = False, first_file = ''init from lines'',
      second_file = ''init from lines'',
      extra_cols_in_first_file = [], extra_cols_in_second_file = [],
      extra_rows_in_first_file = [], extra_rows_in_second_file = [],
      mismatched_rows =
        [[(''row'', PyStr ''r3''), (''column'', PyStr ''c2''),
          (''first'', PyStr ''MISMATCH''), (''second'', PyStr ''v3'')]]\<rparr>"

definition trailing_comma_dataset :: parser_state where
  "trailing_comma_dataset =
     \<lparr>list_of_dicts =
        [[(''a'', PyStr ''1''), ('''', PyStr ''x'')], [(''a'', PyStr ''2''), ('''', PyStr ''x'')]],
      column_names = [''a'', ''''],
      file_text = join_lines [''a,'', ''1,x'', ''2,x''],
      index_column_attr = '''', file_path = ''init from lines'', encoding = ''utf-8''\<rparr>"

text \<open>
  Two files that differ in their columns: \<open>k, x, z\<close> against \<open>k, y\<close>, one data line each;
  the comparer over the datasets built from them and its report.
\<close>

definition columns_first_lines :: "string list" where
  "columns_first_lines = [''k,x,z'', ''1,a,c'']"

definition columns_second_lines :: "string list" where
  "columns_second_lines = [''k,y'', ''1,b'']"

definition columns_comparer :: csv_comparer where
  "columns_comparer =
     \<lparr>first_file_parser =
        CSVParser
          \<lparr>list_of_dicts = [[(''k'', PyStr ''1''), (''x'', PyStr ''a''), (''z'', PyStr ''c'')]],
           column_names = [''k'', ''x'', ''z''],
           file_text = join_lines columns_first_lines,
           index_column_attr = '''', file_path = ''init from lines'', encoding = ''utf-8''\<rparr>,
      second_file_parser =
        CSVParser
          \<lparr>list_of_dicts = [[(''k'', PyStr ''1''), (''y'', PyStr ''b'')]],
           column_names = [''k'', ''y''],
           file_text = join_lines columns_second_lines,
           index_column_attr = '''', file_path = ''init from lines'', encoding = ''utf-8''\<rparr>\<rparr>"

definition columns_report :: csv_compare_output where
  "columns_report =
     \<lparr>match_result = False, first_file = ''init from lines'',
      second_file = ''init from lines'',
      extra_cols_in_first_file = [''x'', ''z''], extra_cols_in_second_file = [''y''],
      extra_rows_in_first_file = [], extra_rows_in_second_file = [],
      mismatched_rows = []\<rparr>"

text \<open>
  The first of these files read with the supplied column names \<open>k, x, x\<close> (its header line
  is then a data line) against the second read with its header; the comparer over the two
  and its report.
\<close>

definition repeated_columns_first :: parser_state where
  "repeated_columns_first =
     \<lparr>list_of_dicts =
        [[(''k'', PyStr ''k''), (''x'', PyStr ''z'')], [(''k'', PyStr ''1''), (''x'', PyStr ''c'')]],
      column_names = [''k'', ''x'', ''x''],
      file_text = join_lines columns_first_lines,
      index_column_attr = '''', file_path = ''init from text'', encoding = ''utf-8''\<rparr>"

definition repeated_columns_second :: parser_state where
  "repeated_columns_second =
     \<lparr>list_of_dicts = [[(''k'', PyStr ''1''), (''y'', PyStr ''b'')]],
      column_names = [''k'', ''y''],
      file_text = join_lines columns_second_lines,
      index_column_attr = '''', file_path = ''init from text'', encoding = ''utf-8''\<rparr>"

definition repeated_columns_comparer :: csv_comparer where
  "repeated_columns_comparer =
     from_csv_parsers (CSVParser repeated_columns_first) (CSVParser repeated_columns_second)"

definition repeated_columns_report :: csv_compare_output where
  "repeated_columns_report =
     \<lparr>match_result = False, first_file = ''init from text'',
      second_file = ''init from text'',
      extra_cols_in_first_file = [''x''], extra_cols_in_second_file = [''y''],
      extra_rows_in_first_file = [PyStr ''k''], extra_rows_in_second_file = [],
      mismatched_rows = []\<rparr>"

text \<open>
  Four more datasets: the one built from the lines of
  \<open>test_parsing_duplicate_column_names\<close>, the one built from the empty text, one with the
  columns \<open>name\<close> and \<open>name\<close> followed by a blank, and the one built from the lines \<open>a,b\<close> /
  \<open>1\<close>, whose only row has \<open>None\<close> in column \<open>b\<close>.
\<close>

definition duplicate_header_dataset :: parser_state where
  "duplicate_header_dataset =
     \<lparr>list_of_dicts = [[(''column 1'', PyStr ''row 1:1''), (''column 2'', PyStr ''row 1:2'')]],
      column_names = [''column 1'', ''column 2'', ''column 1.1''],
      file_text = join_lines [''column 1,column 2,column 1'', ''row 1,row 1:2,row 1:1''],
      index_column_attr = '''', file_path = ''init from lines'', encoding = ''utf-8''\<rparr>"

definition empty_text_dataset :: parser_state where
  "empty_text_dataset = CSVParser_init\<lparr>file_path := ''init from text''\<rparr>"

definition padded_name_dataset :: parser_state where
  "padded_name_dataset =
     \<lparr>list_of_dicts =
        [[(''id'', PyStr ''1''), (''name'', PyStr ''x''), (''name '', PyStr ''y '')],
         [(''id'', PyStr ''2''), (''name'', PyStr ''u''), (''name '', PyStr ''w'')]],
      column_names = [''id'', ''name'', ''name ''],
      file_text = join_lines [''id,name,name '', ''1,x,y '', ''2,u,w''],
      index_column_attr = '''', file_path = ''init from lines'', encoding = ''utf-8''\<rparr>"

definition short_line_dataset :: parser_state where
  "short_line_dataset =
     \<lparr>list_of_dicts = [[(''a'', PyStr ''1''), (''b'', PyNone)]],
      column_names = [''a'', ''b''],
      file_text = join_lines [''a,b'', ''1''],
      index_column_attr = '''', file_path = ''init from lines'', encoding = ''utf-8''\<rparr>"

section \<open>Properties of \<open>_unique_vals\<close>\<close>

text \<open>
  What \<open>probe\<close> returns: the first counter above the old one whose name is not taken.
\<close>

lemma probe_spec:
  "probe v c seen = (c', nv) \<Longrightarrow>
     c < c' \<and> nv = suffixed v c' \<and> nv |\<notin>| seen \<and> (\<forall>m. c < m \<and> m < c' \<longrightarrow> suffixed v m |\<in>| seen)"
proof (induction v c seen rule: probe.induct)
  case (1 val c seen)
  show ?case
  proof (cases "suffixed val (c + 1) |\<notin>| seen")
    case True
    with "1.prems" show ?thesis
      by (auto simp: probe.simps[of val c seen] Let_def)
  next
    case False
    with "1.prems" have rec: "probe val (c + 1) seen = (c', nv)"
      by (simp add: probe.simps[of val c seen] Let_def)
    from "1.IH"[OF refl refl _ rec] False
    have ih: "c + 1 < c' \<and> nv = suffixed val c' \<and> nv |\<notin>| seen \<and>
        (\<forall>m. c + 1 < m \<and> m < c' \<longrightarrow> suffixed val m |\<in>| seen)" by auto
    have "\<And>m. c < m \<Longrightarrow> m < c' \<Longrightarrow> suffixed val m |\<in>| seen"
    proof -
      fix m assume "c < m" "m < c'"
      then consider "m = c + 1" | "c + 1 < m" by linarith
      then show "suffixed val m |\<in>| seen"
        using False ih \<open>m < c'\<close> by cases auto
    qed
    with ih show ?thesis by auto
  qed
qed


lemma counts_ok_keep: "counts_ok seen counts \<Longrightarrow> counts_ok (finsert x seen) counts"
  by (simp add: counts_ok_def)

lemma counts_ok_probe:
  assumes "counts_ok seen counts" and "probe v (counts v) seen = (c, nv)"
  shows "counts_ok (finsert nv seen) (counts(v := c))"
  unfolding counts_ok_def
proof (intro allI impI)
  fix w n assume n: "0 < n \<and> n \<le> (counts(v := c)) w"
  from probe_spec[OF assms(2)] have ps: "counts v < c" "nv = suffixed v c"
    "\<forall>m. counts v < m \<and> m < c \<longrightarrow> suffixed v m |\<in>| seen" by auto
  show "suffixed w n |\<in>| finsert nv seen"
  proof (cases "w = v")
    case False
    with n assms(1) show ?thesis by (auto simp: counts_ok_def)
  next
    case True
    with n have "n \<le> c" by simp
    then consider "n \<le> counts v" | "counts v < n \<and> n < c" | "n = c" by linarith
    then show ?thesis
    proof cases
      case 1 with n assms(1) True show ?thesis by (auto simp: counts_ok_def)
    next
      case 2 with ps True show ?thesis by auto
    next
      case 3 with ps True show ?thesis by simp
    qed
  qed
qed

lemma length_unique_loop: "length (unique_loop vals seen counts) = length vals"
  by (induction vals arbitrary: seen counts) (auto split: prod.splits)

lemma unique_loop_fresh:
  "distinct (unique_loop vals seen counts) \<and> set (unique_loop vals seen counts) \<inter> fset seen = {}"
proof (induction vals arbitrary: seen counts)
  case Nil
  show ?case by simp
next
  case (Cons val rest)
  show ?case
  proof (cases "val |\<notin>| seen")
    case True
    with Cons[of "finsert val seen" counts] show ?thesis by auto
  next
    case False
    obtain c nv where p: "probe val (counts val) seen = (c, nv)" by (cases "probe val (counts val) seen")
    from False p have eq: "unique_loop (val # rest) seen counts =
        nv # unique_loop rest (finsert nv seen) (counts(val := c))" by simp
    from probe_spec[OF p] have "nv |\<notin>| seen" by auto
    with Cons[of "finsert nv seen" "counts(val := c)"] show ?thesis
      unfolding eq by (auto simp del: fun_upd_apply)
  qed
qed


lemma unique_loop_nth:
  "counts_ok seen counts \<Longrightarrow> i < length vals \<Longrightarrow>
     renamed_at (fset seen \<union> set (take i (unique_loop vals seen counts))) (vals ! i)
       (unique_loop vals seen counts ! i)"
proof (induction vals arbitrary: seen counts i)
  case Nil
  then show ?case by simp
next
  case (Cons val rest)
  show ?case
  proof (cases "val |\<notin>| seen")
    case True
    note fresh = this
    show ?thesis
    proof (cases i)
      case 0
      with fresh show ?thesis by (simp add: renamed_at_def)
    next
      case (Suc j)
      with Cons.prems have j: "j < length rest" by simp
      from Cons.IH[OF counts_ok_keep[OF Cons.prems(1)] j, of val] fresh Suc
      show ?thesis by (simp add: Un_commute insert_commute Un_insert_left Un_insert_right)
    qed
  next
    case False
    note seen_before = this
    obtain c nv where p: "probe val (counts val) seen = (c, nv)" by (cases "probe val (counts val) seen")
    note ps = probe_spec[OF p]
    show ?thesis
    proof (cases i)
      case 0
      have low: "\<And>m. 0 < m \<Longrightarrow> m < c \<Longrightarrow> suffixed val m |\<in>| seen"
      proof -
        fix m assume m: "0 < m" "m < c"
        show "suffixed val m |\<in>| seen"
        proof (cases "m \<le> counts val")
          case True with m Cons.prems(1) show ?thesis by (auto simp: counts_ok_def)
        next
          case False with m ps show ?thesis by auto
        qed
      qed
      from ps have "0 < c" by simp
      moreover from ps have "nv = suffixed val c" "suffixed val c |\<notin>| seen" by auto
      ultimately have "\<exists>n>0. nv = suffixed val n \<and> suffixed val n |\<notin>| seen \<and>
          (\<forall>m. 0 < m \<and> m < n \<longrightarrow> suffixed val m |\<in>| seen)"
        using low by blast
      with 0 seen_before p show ?thesis
        by (simp add: renamed_at_def)
    next
      case (Suc j)
      with Cons.prems have j: "j < length rest" by simp
      from seen_before p have eq: "unique_loop (val # rest) seen counts =
          nv # unique_loop rest (finsert nv seen) (counts(val := c))" by simp
      from Cons.IH[OF counts_ok_probe[OF Cons.prems(1) p] j] Suc
      show ?thesis unfolding eq by (simp del: fun_upd_apply)
    qed
  qed
qed


lemma unique_loop_inputs_seen:
  "set (take i vals) \<subseteq> fset seen \<union> set (take i (unique_loop vals seen counts))"
proof (induction vals arbitrary: seen counts i)
  case Nil
  show ?case by simp
next
  case (Cons val rest)
  show ?case
  proof (cases i)
    case 0
    then show ?thesis by simp
  next
    case (Suc j)
    show ?thesis
    proof (cases "val |\<notin>| seen")
      case True
      with Cons[of j "finsert val seen" counts] Suc show ?thesis by auto
    next
      case False
      obtain c nv where p: "probe val (counts val) seen = (c, nv)"
        by (cases "probe val (counts val) seen")
      from False p have eq: "unique_loop (val # rest) seen counts =
          nv # unique_loop rest (finsert nv seen) (counts(val := c))" by simp
      from Cons[of j "finsert nv seen" "counts(val := c)"] False Suc show ?thesis
        unfolding eq by (auto simp del: fun_upd_apply)
    qed
  qed
qed

lemma counts_ok_start: "counts_ok {||} (\<lambda>_. 0)"
  by (auto simp: counts_ok_def)

text \<open>
  Claim C1, as amended. At position \<open>i\<close> the set \<open>unique_values\<close> of the source holds
  exactly the first \<open>i\<close> names of the result. The result has the length of the input; a
  name that is not among the earlier results is kept; a name that is among them is replaced
  by \<open>name.n\<close> for the least positive \<open>n\<close> whose \<open>name.n\<close> is not among them; every
  repeated input name is among the earlier results, so it is renamed in this way; and the
  routine gives \<open>a, a.1, a.2\<close> on \<open>a, a, a\<close> and on \<open>a, a.1, a\<close>. The first occurrence of
  a name is kept only when no earlier repeat was renamed to it (see the counterexample
  below).
\<close>

theorem unique_vals_renames:
  "length (unique_vals vals) = length vals \<and>
   (\<forall>i<length vals.
      (vals ! i \<notin> set (take i (unique_vals vals)) \<longrightarrow> unique_vals vals ! i = vals ! i) \<and>
      (vals ! i \<in> set (take i (unique_vals vals)) \<longrightarrow>
         (\<exists>n>0. unique_vals vals ! i = suffixed (vals ! i) n \<and>
                suffixed (vals ! i) n \<notin> set (take i (unique_vals vals)) \<and>
                (\<forall>m. 0 < m \<and> m < n \<longrightarrow> suffixed (vals ! i) m \<in> set (take i (unique_vals vals))))) \<and>
      (vals ! i \<in> set (take i vals) \<longrightarrow> vals ! i \<in> set (take i (unique_vals vals)))) \<and>
   unique_vals [PyStr ''a'', PyStr ''a'', PyStr ''a''] =
     [PyStr ''a'', PyStr ''a.1'', PyStr ''a.2''] \<and>
   unique_vals [PyStr ''a'', PyStr ''a.1'', PyStr ''a''] =
     [PyStr ''a'', PyStr ''a.1'', PyStr ''a.2'']"
proof (intro conjI allI impI)
  show "length (unique_vals vals) = length vals"
    by (simp add: unique_vals_def length_unique_loop)
next
  fix i assume i: "i < length vals"
  from unique_loop_nth[OF counts_ok_start i]
  have r: "renamed_at (set (take i (unique_vals vals))) (vals ! i) (unique_vals vals ! i)"
    by (simp add: unique_vals_def)
  { assume "vals ! i \<notin> set (take i (unique_vals vals))"
    with r show "unique_vals vals ! i = vals ! i" by (simp add: renamed_at_def) }
  { assume "vals ! i \<in> set (take i (unique_vals vals))"
    with r show "\<exists>n>0. unique_vals vals ! i = suffixed (vals ! i) n \<and>
                suffixed (vals ! i) n \<notin> set (take i (unique_vals vals)) \<and>
                (\<forall>m. 0 < m \<and> m < n \<longrightarrow> suffixed (vals ! i) m \<in> set (take i (unique_vals vals)))"
      unfolding renamed_at_def by (simp only: if_False not_not) }
  { assume "vals ! i \<in> set (take i vals)"
    with unique_loop_inputs_seen[of i vals "{||}" "\<lambda>_. 0"]
    show "vals ! i \<in> set (take i (unique_vals vals))"
      by (auto simp: unique_vals_def) }
next
  show "unique_vals [PyStr ''a'', PyStr ''a'', PyStr ''a''] =
     [PyStr ''a'', PyStr ''a.1'', PyStr ''a.2'']" by code_simp
next
  show "unique_vals [PyStr ''a'', PyStr ''a.1'', PyStr ''a''] =
     [PyStr ''a'', PyStr ''a.1'', PyStr ''a.2'']" by code_simp
qed

text \<open>The theorem at the input \<open>a, a\<close>, position 1: a repeat, renamed with a suffix.\<close>

theorem unique_vals_renames_witness:
  "(1::nat) < length [PyStr ''a'', PyStr ''a''] \<and>
   [PyStr ''a'', PyStr ''a''] ! 1 \<in> set (take 1 [PyStr ''a'', PyStr ''a'']) \<and>
   [PyStr ''a'', PyStr ''a''] ! 1 \<in> set (take 1 (unique_vals [PyStr ''a'', PyStr ''a''])) \<and>
   (\<exists>n>0. unique_vals [PyStr ''a'', PyStr ''a''] ! 1 =
            suffixed ([PyStr ''a'', PyStr ''a''] ! 1) n)"
proof -
  have i: "(1::nat) < length [PyStr ''a'', PyStr ''a'']" by simp
  have rep: "[PyStr ''a'', PyStr ''a''] ! 1 \<in> set (take 1 [PyStr ''a'', PyStr ''a''])"
    by simp
  from unique_vals_renames[of "[PyStr ''a'', PyStr ''a'']"] i rep
  have seen: "[PyStr ''a'', PyStr ''a''] ! 1 \<in>
      set (take 1 (unique_vals [PyStr ''a'', PyStr ''a'']))" by blast
  with unique_vals_renames[of "[PyStr ''a'', PyStr ''a'']"] i
  have "\<exists>n>0. unique_vals [PyStr ''a'', PyStr ''a''] ! 1 =
            suffixed ([PyStr ''a'', PyStr ''a''] ! 1) n" by blast
  with i rep seen show ?thesis by blast
qed

text \<open>
  Claim C1 as stated fails: in \<open>a, a, a.1\<close> the name \<open>a.1\<close> occurs for the first time at the
  last position, and it is renamed, because the repeat of \<open>a\<close> before it took the name.
\<close>

theorem unique_vals_first_occurrence_counterexample:
  "PyStr ''a.1'' \<notin> set [PyStr ''a'', PyStr ''a''] \<and>
   unique_vals [PyStr ''a'', PyStr ''a'', PyStr ''a.1''] =
     [PyStr ''a'', PyStr ''a.1'', PyStr ''a.1.1'']"
  by code_simp

section \<open>Properties of the setter of \<open>index_column\<close> and of the loops of \<open>compare\<close>\<close>

lemma distinct_unique_vals: "distinct (unique_vals vals)"
  using unique_loop_fresh[of vals "{||}" "\<lambda>_. 0"] by (simp add: unique_vals_def)

lemma length_unique_vals: "length (unique_vals vals) = length vals"
  by (simp add: unique_vals_def length_unique_loop)

lemma write_index_zip:
  "CSVParser_index_column p = Inr k \<Longrightarrow> length vs = length rows \<Longrightarrow>
     write_index p rows vs = Inr (map (\<lambda>(r, v). AList.update k v r) (zip rows vs))"
  by (induction p rows vs rule: write_index.induct) auto

lemma index_column_after_store:
  "column_names p \<noteq> [] \<Longrightarrow>
     CSVParser_index_column (p\<lparr>index_column_attr := v\<rparr>) = Inr (index_key p v)"
  by (cases "column_names p") (auto simp: CSVParser_index_column_def index_key_def)

lemma set_index_column_result:
  assumes "v \<in> set (column_names p)"
  shows "CSVParser_set_index_column p v =
           Inr (p\<lparr>index_column_attr := v,
                  list_of_dicts :=
                    map (\<lambda>(r, x). AList.update (index_key p v) x r)
                      (zip (list_of_dicts p)
                         (unique_vals (map (\<lambda>x. get_or_empty x v) (list_of_dicts p))))\<rparr>)"
proof -
  from assms have ne: "column_names p \<noteq> []" by auto
  let ?p1 = "p\<lparr>index_column_attr := v\<rparr>"
  let ?vals = "unique_vals (CSVParser_row_values_in_column ?p1 (index_column_attr ?p1))"
  have vals: "?vals = unique_vals (map (\<lambda>x. get_or_empty x v) (list_of_dicts p))"
    using assms by (simp add: CSVParser_row_values_in_column_def)
  have len: "length ?vals = length (list_of_dicts ?p1)"
    using assms by (simp add: CSVParser_row_values_in_column_def length_unique_vals)
  have "write_index ?p1 (list_of_dicts ?p1) ?vals =
      Inr (map (\<lambda>(r, x). AList.update (index_key p v) x r) (zip (list_of_dicts ?p1) ?vals))"
    by (rule write_index_zip[OF index_column_after_store[OF ne] len])
  with assms ne vals show ?thesis
    by (simp add: CSVParser_set_index_column_def Let_def)
qed

lemma set_index_column_ok:
  assumes "v \<in> set (column_names (attrs d))"
  shows "\<exists>d'. set_index_column d v = Inr d' \<and> column_names (attrs d') = column_names (attrs d)
           \<and> file_path (attrs d') = file_path (attrs d)"
proof (cases d)
  case (CSVParser p)
  with assms set_index_column_result[of v p] show ?thesis by simp
next
  case (NullCSVParser p)
  then show ?thesis by (simp add: NullCSVParser_set_index_column_def)
qed

lemma set_index_column_columns:
  "set_index_column d v = Inr d' \<Longrightarrow> column_names (attrs d') = column_names (attrs d)"
proof (cases d)
  case (CSVParser p)
  assume r: "set_index_column d v = Inr d'"
  show ?thesis
  proof (cases "v \<in> set (column_names p)")
    case True
    with r CSVParser set_index_column_result[of v p] show ?thesis by auto
  next
    case False
    with r CSVParser show ?thesis
      by (auto simp: CSVParser_set_index_column_def split: if_splits)
  qed
next
  case (NullCSVParser p)
  assume "set_index_column d v = Inr d'"
  with NullCSVParser show ?thesis by (auto simp: NullCSVParser_set_index_column_def)
qed

lemma get_value_ok:
  "column_names (attrs d) \<noteq> [] \<Longrightarrow> \<exists>x. get_value d r c = Inr x"
  by (cases d; cases "column_names (attrs d)")
     (auto simp: CSVParser_get_value_def CSVParser_index_column_def NullCSVParser_get_value_def)

lemma compare_cell_ok:
  "column_names (attrs f) \<noteq> [] \<Longrightarrow> column_names (attrs s) \<noteq> [] \<Longrightarrow>
     \<exists>ys. compare_cell f s r c = Inr ys"
  using get_value_ok[of f r c] get_value_ok[of s r c]
  by (auto simp: compare_cell_def)

lemma collect_ok:
  "(\<And>x. \<exists>ys. body x = Inr ys) \<Longrightarrow> \<exists>zs. collect body xs = Inr zs"
proof (induction xs)
  case Nil
  show ?case by simp
next
  case (Cons x xs)
  from Cons.prems obtain ys where "body x = Inr ys" by blast
  moreover from Cons obtain zs where "collect body xs = Inr zs" by blast
  ultimately show ?case by simp
qed

lemma collect_empty:
  "(\<And>x. body x = Inr []) \<Longrightarrow> collect body xs = Inr []"
  by (induction xs) simp_all

lemma compare_cell_same:
  "column_names (attrs f) \<noteq> [] \<Longrightarrow> compare_cell f f r c = Inr []"
  using get_value_ok[of f r c] by (auto simp: compare_cell_def)

lemma set_diff_same: "set_diff a a = []"
  by (simp add: set_diff_def)

text \<open>What a successful \<open>compare\<close> went through, read off its definition.\<close>

lemma compare_Inr_cases:
  assumes "compare c k = Inr (r, c')"
  obtains f s mm where
    "k \<in> set (column_names (attrs (first_file_parser c)))"
    "k \<in> set (column_names (attrs (second_file_parser c)))"
    "set_index_column (first_file_parser c) k = Inr f"
    "set_index_column (second_file_parser c) k = Inr s"
    "collect (\<lambda>row. collect (\<lambda>column. compare_cell f s row column)
         (set_inter (py_set (column_names (attrs f))) (py_set (column_names (attrs s)))))
       (set_inter (py_set (row_values_in_column f k)) (py_set (row_values_in_column s k))) = Inr mm"
    "extra_cols_in_first_file r = set_diff (py_set (column_names (attrs f))) (py_set (column_names (attrs s)))"
    "extra_cols_in_second_file r = set_diff (py_set (column_names (attrs s))) (py_set (column_names (attrs f)))"
    "extra_rows_in_first_file r = set_diff (py_set (row_values_in_column f k)) (py_set (row_values_in_column s k))"
    "extra_rows_in_second_file r = set_diff (py_set (row_values_in_column s k)) (py_set (row_values_in_column f k))"
    "mismatched_rows r = mm"
    "match_result r \<longleftrightarrow>
       extra_cols_in_first_file r = [] \<and> extra_cols_in_second_file r = [] \<and>
       extra_rows_in_first_file r = [] \<and> extra_rows_in_second_file r = [] \<and> mismatched_rows r = []"
    "first_file r = file_path (attrs f)" "second_file r = file_path (attrs s)"
    "c' = c\<lparr>first_file_parser := f, second_file_parser := s\<rparr>"
  using assms unfolding compare_def Let_def
  by (auto split: if_splits sum.splits)

lemma compare_same_dataset:
  assumes "key \<in> set (column_names (attrs d))"
  shows "\<exists>c'. compare (from_csv_parsers d d) key =
           Inr (\<lparr>match_result = True, first_file = file_path (attrs d),
                 second_file = file_path (attrs d),
                 extra_cols_in_first_file = [], extra_cols_in_second_file = [],
                 extra_rows_in_first_file = [], extra_rows_in_second_file = [],
                 mismatched_rows = []\<rparr>, c')"
proof -
  from assms set_index_column_ok[of key d]
  obtain f where f: "set_index_column d key = Inr f"
    and fc: "column_names (attrs f) = column_names (attrs d)"
    and fp: "file_path (attrs f) = file_path (attrs d)" by blast
  from assms fc have ne: "column_names (attrs f) \<noteq> []" by auto
  have inner: "\<And>row cols. collect (\<lambda>column. compare_cell f f row column) cols = Inr []"
    by (rule collect_empty) (rule compare_cell_same[OF ne])
  have outer: "\<And>rows cols. collect (\<lambda>row. collect (\<lambda>column. compare_cell f f row column) cols) rows = Inr []"
    by (rule collect_empty) (rule inner)
  from assms f fp show ?thesis
    by (simp add: compare_def from_csv_parsers_def CSVComparer_init_def Let_def outer set_diff_same)
qed

section \<open>The examples, computed\<close>

lemma example_first_built:
  "from_lines test_extern example_first_lines None = Inr example_first"
  by code_simp

lemma example_second_built:
  "from_lines test_extern example_second_lines None = Inr example_second"
  by code_simp

lemma example_comparer_built:
  "CSVComparer_from_lines test_extern example_first_lines example_second_lines =
     Inr example_comparer"
  by code_simp

lemma trailing_comma_dataset_built:
  "from_lines test_extern [''a,'', ''1,x'', ''2,x''] None = Inr trailing_comma_dataset"
  by code_simp

lemma example_compare: "map_sum id fst (compare example_comparer ''c1'') = Inr example_report"
  by code_simp

lemma columns_comparer_built:
  "CSVComparer_from_lines test_extern columns_first_lines columns_second_lines =
     Inr columns_comparer"
  by code_simp

lemma columns_compare: "map_sum id fst (compare columns_comparer ''k'') = Inr columns_report"
  by code_simp

lemma repeated_columns_built:
  "from_csv_text test_extern (join_lines columns_first_lines)
     (Some [Str ''k'', Str ''x'', Str ''x'']) = Inr repeated_columns_first \<and>
   from_csv_text test_extern (join_lines columns_second_lines) None =
     Inr repeated_columns_second"
  by code_simp

lemma repeated_columns_compare:
  "map_sum id fst (compare repeated_columns_comparer ''k'') = Inr repeated_columns_report"
  by code_simp

lemma short_line_dataset_built:
  "from_lines test_extern [''a,b'', ''1''] None = Inr short_line_dataset"
  by code_simp

lemma duplicate_header_dataset_built:
  "from_lines test_extern [''column 1,column 2,column 1'', ''row 1,row 1:2,row 1:1''] None =
     Inr duplicate_header_dataset"
  by code_simp

lemma empty_text_dataset_built: "from_csv_text test_extern [] None = Inr empty_text_dataset"
  by code_simp

section \<open>Properties of \<open>compare\<close>\<close>

text \<open>
  Claim C2. In every report that \<open>compare\<close> returns, \<open>match_result\<close> is true if and only
  if the two lists of extra columns, the two lists of extra rows and the list of
  mismatched rows are all empty.
\<close>

theorem compare_match_result:
  "compare c key = Inr (r, c') \<Longrightarrow>
     match_result r \<longleftrightarrow>
       (extra_cols_in_first_file r = [] \<and> extra_cols_in_second_file r = [] \<and>
        extra_rows_in_first_file r = [] \<and> extra_rows_in_second_file r = [] \<and>
        mismatched_rows r = [])"
  by (erule compare_Inr_cases) blast

text \<open>
  The end-to-end example satisfies the hypothesis: \<open>compare\<close> returns \<open>example_report\<close>.
\<close>

theorem compare_match_result_witness:
  "\<exists>c'. compare example_comparer ''c1'' = Inr (example_report, c') \<and>
     (match_result example_report \<longleftrightarrow>
        (extra_cols_in_first_file example_report = [] \<and>
         extra_cols_in_second_file example_report = [] \<and>
         extra_rows_in_first_file example_report = [] \<and>
         extra_rows_in_second_file example_report = [] \<and>
         mismatched_rows example_report = []))"
proof -
  from example_compare obtain c' where
    run: "compare example_comparer ''c1'' = Inr (example_report, c')"
    by (cases "compare example_comparer ''c1''") auto
  from compare_match_result[OF run] run show ?thesis by blast
qed

text \<open>
  Claim C3. \<open>compare\<close> raises if and only if the key column is missing from the columns
  of the first or of the second dataset. The exception is then a \<open>ValueError\<close> whose message
  names the first file when the first dataset lacks the column, the second file
  otherwise, and ends with the list of columns of that dataset. When both datasets have
  the column, \<open>compare\<close> returns a report.
\<close>

theorem compare_validation:
  "((\<exists>e. compare c key = Inl e) \<longleftrightarrow>
      key \<notin> set (column_names (attrs (first_file_parser c))) \<or>
      key \<notin> set (column_names (attrs (second_file_parser c)))) \<and>
   (key \<notin> set (column_names (attrs (first_file_parser c))) \<longrightarrow>
      compare c key =
        Inl (ValueError
               [Text ''Index column '', Text [CHR 0x27], Text key, Text [CHR 0x27],
                Text '' not found in first file. Available columns: '',
                ReprList (column_names (attrs (first_file_parser c)))])) \<and>
   (key \<in> set (column_names (attrs (first_file_parser c))) \<and>
    key \<notin> set (column_names (attrs (second_file_parser c))) \<longrightarrow>
      compare c key =
        Inl (ValueError
               [Text ''Index column '', Text [CHR 0x27], Text key, Text [CHR 0x27],
                Text '' not found in second file. Available columns: '',
                ReprList (column_names (attrs (second_file_parser c)))])) \<and>
   (key \<in> set (column_names (attrs (first_file_parser c))) \<and>
    key \<in> set (column_names (attrs (second_file_parser c))) \<longrightarrow>
      (\<exists>r c'. compare c key = Inr (r, c')))"
proof -
  have first_missing: "compare c key =
        Inl (ValueError
               [Text ''Index column '', Text [CHR 0x27], Text key, Text [CHR 0x27],
                Text '' not found in first file. Available columns: '',
                ReprList (column_names (attrs (first_file_parser c)))])"
    if "key \<notin> set (column_names (attrs (first_file_parser c)))"
    using that by (simp add: compare_def)
  have second_missing: "compare c key =
        Inl (ValueError
               [Text ''Index column '', Text [CHR 0x27], Text key, Text [CHR 0x27],
                Text '' not found in second file. Available columns: '',
                ReprList (column_names (attrs (second_file_parser c)))])"
    if "key \<in> set (column_names (attrs (first_file_parser c))) \<and>
        key \<notin> set (column_names (attrs (second_file_parser c)))"
    using that by (simp add: compare_def)
  have returns: "\<exists>r c'. compare c key = Inr (r, c')"
    if both: "key \<in> set (column_names (attrs (first_file_parser c))) \<and>
        key \<in> set (column_names (attrs (second_file_parser c)))"
  proof -
    from both set_index_column_ok[of key "first_file_parser c"]
    obtain f where f: "set_index_column (first_file_parser c) key = Inr f"
      and fc: "column_names (attrs f) = column_names (attrs (first_file_parser c))" by blast
    from both set_index_column_ok[of key "second_file_parser c"]
    obtain s where s: "set_index_column (second_file_parser c) key = Inr s"
      and sc: "column_names (attrs s) = column_names (attrs (second_file_parser c))" by blast
    from both fc sc have ne: "column_names (attrs f) \<noteq> []" "column_names (attrs s) \<noteq> []"
      by auto
    have inner: "\<And>row cols. \<exists>ys. collect (\<lambda>column. compare_cell f s row column) cols = Inr ys"
      by (rule collect_ok) (rule compare_cell_ok[OF ne])
    have "\<And>rows cols. \<exists>zs. collect (\<lambda>row. collect (\<lambda>column. compare_cell f s row column) cols) rows = Inr zs"
      by (rule collect_ok) (rule inner)
    then obtain mm where "collect (\<lambda>row. collect (\<lambda>column. compare_cell f s row column)
           (set_inter (py_set (column_names (attrs f))) (py_set (column_names (attrs s)))))
         (set_inter (py_set (row_values_in_column f key)) (py_set (row_values_in_column s key))) = Inr mm"
      by blast
    with both f s show ?thesis
      by (simp add: compare_def Let_def)
  qed
  have "(\<exists>e. compare c key = Inl e) \<longleftrightarrow>
      key \<notin> set (column_names (attrs (first_file_parser c))) \<or>
      key \<notin> set (column_names (attrs (second_file_parser c)))"
    using first_missing second_missing returns by (metis Inl_Inr_False)
  with first_missing second_missing returns show ?thesis by blast
qed

text \<open>
  On the example, the key \<open>c3\<close> is in neither dataset and \<open>c1\<close> is in both.
\<close>

theorem compare_validation_witness:
  "''c3'' \<notin> set (column_names (attrs (first_file_parser example_comparer))) \<and>
   compare example_comparer ''c3'' =
     Inl (ValueError
            [Text ''Index column '', Text [CHR 0x27], Text ''c3'', Text [CHR 0x27],
             Text '' not found in first file. Available columns: '',
             ReprList [''c1'', ''c2'']]) \<and>
   ''c1'' \<in> set (column_names (attrs (first_file_parser example_comparer))) \<and>
   ''c1'' \<in> set (column_names (attrs (second_file_parser example_comparer))) \<and>
   (\<exists>r c'. compare example_comparer ''c1'' = Inr (r, c'))"
proof -
  have cols: "column_names (attrs (first_file_parser example_comparer)) = [''c1'', ''c2'']"
    "column_names (attrs (second_file_parser example_comparer)) = [''c1'', ''c2'']"
    by (simp_all add: example_comparer_def example_first_def example_second_def)
  have absent: "''c3'' \<notin> set (column_names (attrs (first_file_parser example_comparer)))"
    by (simp add: cols)
  have present: "''c1'' \<in> set (column_names (attrs (first_file_parser example_comparer))) \<and>
      ''c1'' \<in> set (column_names (attrs (second_file_parser example_comparer)))"
    by (simp add: cols)
  from compare_validation[where key="''c3''" and c=example_comparer] absent
  have "compare example_comparer ''c3'' =
     Inl (ValueError
            [Text ''Index column '', Text [CHR 0x27], Text ''c3'', Text [CHR 0x27],
             Text '' not found in first file. Available columns: '',
             ReprList [''c1'', ''c2'']])"
    by (simp add: cols)
  moreover from compare_validation[where key="''c1''" and c=example_comparer] present
  have "\<exists>r c'. compare example_comparer ''c1'' = Inr (r, c')" by blast
  ultimately show ?thesis using absent present by blast
qed

text \<open>
  Claim C4. In every report of \<open>compare\<close>, the extra columns of the first file are the
  columns of the first dataset without those of the second, the extra columns of the
  second file are the columns of the second without those of the first, each such column
  is listed once (also when the dataset's own list of columns repeats it), and the two
  lists have no element in common. The order of the lists is not part of the statement.
\<close>

theorem compare_extra_columns:
  "compare c key = Inr (r, c') \<Longrightarrow>
     set (extra_cols_in_first_file r) =
       set (column_names (attrs (first_file_parser c))) -
       set (column_names (attrs (second_file_parser c))) \<and>
     set (extra_cols_in_second_file r) =
       set (column_names (attrs (second_file_parser c))) -
       set (column_names (attrs (first_file_parser c))) \<and>
     distinct (extra_cols_in_first_file r) \<and>
     distinct (extra_cols_in_second_file r) \<and>
     set (extra_cols_in_first_file r) \<inter> set (extra_cols_in_second_file r) = {}"
proof (erule compare_Inr_cases)
  fix f s
  assume f: "set_index_column (first_file_parser c) key = Inr f"
    and s: "set_index_column (second_file_parser c) key = Inr s"
    and e1: "extra_cols_in_first_file r =
        set_diff (py_set (column_names (attrs f))) (py_set (column_names (attrs s)))"
    and e2: "extra_cols_in_second_file r =
        set_diff (py_set (column_names (attrs s))) (py_set (column_names (attrs f)))"
  from set_index_column_columns[OF f] set_index_column_columns[OF s] e1 e2
  show ?thesis by (auto simp: set_diff_def py_set_def)
qed

text \<open>
  Two comparers with extra columns on both sides. The columns \<open>k, x, z\<close> against \<open>k, y\<close>
  give the extra columns \<open>x, z\<close> and \<open>y\<close>. The columns \<open>k, x, x\<close> against \<open>k, y\<close> give \<open>x\<close>,
  once, and \<open>y\<close>.
\<close>

theorem compare_extra_columns_witness:
  "(\<exists>c'. compare columns_comparer ''k'' = Inr (columns_report, c')) \<and>
   column_names (attrs (first_file_parser columns_comparer)) = [''k'', ''x'', ''z''] \<and>
   column_names (attrs (second_file_parser columns_comparer)) = [''k'', ''y''] \<and>
   set (extra_cols_in_first_file columns_report) = {''x'', ''z''} \<and>
   set (extra_cols_in_second_file columns_report) = {''y''} \<and>
   distinct (extra_cols_in_first_file columns_report) \<and>
   distinct (extra_cols_in_second_file columns_report) \<and>
   (\<exists>c'. compare repeated_columns_comparer ''k'' = Inr (repeated_columns_report, c')) \<and>
   column_names (attrs (first_file_parser repeated_columns_comparer)) = [''k'', ''x'', ''x''] \<and>
   column_names (attrs (second_file_parser repeated_columns_comparer)) = [''k'', ''y''] \<and>
   set (extra_cols_in_first_file repeated_columns_report) = {''x''} \<and>
   set (extra_cols_in_second_file repeated_columns_report) = {''y''} \<and>
   distinct (extra_cols_in_first_file repeated_columns_report) \<and>
   length (extra_cols_in_first_file repeated_columns_report) = 1"
proof -
  from columns_compare obtain c1 where
    run1: "compare columns_comparer ''k'' = Inr (columns_report, c1)"
    by (cases "compare columns_comparer ''k''") auto
  have cols1: "column_names (attrs (first_file_parser columns_comparer)) = [''k'', ''x'', ''z'']"
    "column_names (attrs (second_file_parser columns_comparer)) = [''k'', ''y'']"
    by (simp_all add: columns_comparer_def)
  from compare_extra_columns[OF run1]
  have sets1: "set (extra_cols_in_first_file columns_report) = {''x'', ''z''}"
    "set (extra_cols_in_second_file columns_report) = {''y''}"
    and once1: "distinct (extra_cols_in_first_file columns_report)"
    "distinct (extra_cols_in_second_file columns_report)"
    by (auto simp: cols1)
  from repeated_columns_compare obtain c2 where
    run2: "compare repeated_columns_comparer ''k'' = Inr (repeated_columns_report, c2)"
    by (cases "compare repeated_columns_comparer ''k''") auto
  have cols2:
    "column_names (attrs (first_file_parser repeated_columns_comparer)) = [''k'', ''x'', ''x'']"
    "column_names (attrs (second_file_parser repeated_columns_comparer)) = [''k'', ''y'']"
    by (simp_all add: repeated_columns_comparer_def from_csv_parsers_def
        CSVComparer_init_def repeated_columns_first_def repeated_columns_second_def)
  from compare_extra_columns[OF run2]
  have sets2: "set (extra_cols_in_first_file repeated_columns_report) = {''x''}"
    "set (extra_cols_in_second_file repeated_columns_report) = {''y''}"
    and once2: "distinct (extra_cols_in_first_file repeated_columns_report)"
    by (auto simp: cols2)
  from sets2(1) once2 have "length (extra_cols_in_first_file repeated_columns_report) = 1"
    by (metis One_nat_def card.empty card_insert_disjoint distinct_card empty_iff finite.emptyI)
  with run1 cols1 sets1 once1 run2 cols2 sets2 once2 show ?thesis by blast
qed

text \<open>
  Claim C7. Two datasets built by the same factory from the same input (text, lines or
  file, with the same column names argument) and compared on a key column that is among
  their columns give a report with \<open>match_result\<close> true and all five lists empty. The
  lemma \<open>compare_same_dataset\<close> above is the same statement for any two equal datasets,
  whatever their history.
\<close>

theorem compare_same_input:
  assumes "(from_csv_text ext text cols = Inr p1 \<and> from_csv_text ext text cols = Inr p2) \<or>
           (from_lines ext csv_lines cols = Inr p1 \<and> from_lines ext csv_lines cols = Inr p2) \<or>
           (from_file ext fs path cols = Inr p1 \<and> from_file ext fs path cols = Inr p2)"
    and "key \<in> set (column_names p1)"
  shows "\<exists>c'. compare (from_csv_parsers (CSVParser p1) (CSVParser p2)) key =
           Inr (\<lparr>match_result = True, first_file = file_path p1, second_file = file_path p2,
                 extra_cols_in_first_file = [], extra_cols_in_second_file = [],
                 extra_rows_in_first_file = [], extra_rows_in_second_file = [],
                 mismatched_rows = []\<rparr>, c')"
proof -
  from assms(1) have same: "p2 = p1" by auto
  from assms(2) have "key \<in> set (column_names (attrs (CSVParser p1)))" by simp
  from compare_same_dataset[OF this] same show ?thesis by simp
qed

text \<open>
  The first file of the end-to-end example, built twice from its lines, key \<open>c1\<close>.
\<close>

theorem compare_same_input_witness:
  "from_lines test_extern example_first_lines None = Inr example_first \<and>
   ''c1'' \<in> set (column_names example_first) \<and>
   (\<exists>c'. compare (from_csv_parsers (CSVParser example_first) (CSVParser example_first)) ''c1'' =
           Inr (\<lparr>match_result = True, first_file = file_path example_first,
                 second_file = file_path example_first,
                 extra_cols_in_first_file = [], extra_cols_in_second_file = [],
                 extra_rows_in_first_file = [], extra_rows_in_second_file = [],
                 mismatched_rows = []\<rparr>, c'))"
proof -
  note built = example_first_built
  have key: "''c1'' \<in> set (column_names example_first)" by (simp add: example_first_def)
  from built have "(from_csv_text test_extern [] None = Inr example_first \<and>
        from_csv_text test_extern [] None = Inr example_first) \<or>
      (from_lines test_extern example_first_lines None = Inr example_first \<and>
        from_lines test_extern example_first_lines None = Inr example_first) \<or>
      (from_file test_extern Map.empty [] None = Inr example_first \<and>
        from_file test_extern Map.empty [] None = Inr example_first)" by blast
  from compare_same_input[OF this key] built key show ?thesis by blast
qed

section \<open>Properties of the dataset\<close>

text \<open>
  Writing a value under a key and reading the key again; the setter read back.
\<close>

lemma get_or_empty_update: "get_or_empty (AList.update k x r) k = x"
  by (simp add: get_or_empty_def update_conv')

lemma map_get_after_update:
  "length vs = length rows \<Longrightarrow>
     map (\<lambda>x. get_or_empty x k) (map (\<lambda>(r, x). AList.update k x r) (zip rows vs)) = vs"
  by (induction rows vs rule: list_induct2') (simp_all add: get_or_empty_update)

text \<open>
  For every column name but one case the setter does what its documentation says: the
  values of the column become the de-duplicated values, pairwise distinct. The case left
  out is the empty name on a dataset whose first column has another name.
\<close>

lemma set_index_column_distinct:
  assumes "v \<in> set (column_names p)" and "v \<noteq> [] \<or> hd (column_names p) = v"
    and "CSVParser_set_index_column p v = Inr p'"
  shows "CSVParser_row_values_in_column p' v =
           unique_vals (CSVParser_row_values_in_column p v) \<and>
         distinct (CSVParser_row_values_in_column p' v)"
proof -
  from assms(2) have k: "index_key p v = v" by (auto simp: index_key_def)
  let ?vals = "unique_vals (map (\<lambda>x. get_or_empty x v) (list_of_dicts p))"
  from assms(3) set_index_column_result[OF assms(1)] k
  have p': "p' = p\<lparr>index_column_attr := v,
      list_of_dicts := map (\<lambda>(r, x). AList.update v x r) (zip (list_of_dicts p) ?vals)\<rparr>"
    by simp
  have "length ?vals = length (list_of_dicts p)" by (simp add: length_unique_vals)
  from map_get_after_update[OF this, of v] assms(1) p'
  have "CSVParser_row_values_in_column p' v = ?vals"
    by (simp add: CSVParser_row_values_in_column_def)
  with assms(1) show ?thesis
    by (simp add: CSVParser_row_values_in_column_def distinct_unique_vals)
qed

text \<open>
  Claim C5 fails on the code. The lines \<open>a,\<close> / \<open>1,x\<close> / \<open>2,x\<close> give the columns \<open>a\<close> and
  the empty name. Setting the empty name as the index column succeeds, but the loop of
  the setter writes through the getter, which takes the empty stored name for "not set"
  and answers \<open>a\<close>: the de-duplicated values \<open>x, x.1\<close> land in column \<open>a\<close>, and the column with
  the empty name still holds \<open>x\<close> twice.
\<close>

theorem set_index_column_empty_name:
  "from_lines test_extern [''a,'', ''1,x'', ''2,x''] None = Inr trailing_comma_dataset \<and>
   '''' \<in> set (column_names trailing_comma_dataset) \<and>
   CSVParser_set_index_column trailing_comma_dataset '''' =
     Inr (trailing_comma_dataset
            \<lparr>list_of_dicts :=
               [[(''a'', PyStr ''x''), ('''', PyStr ''x'')],
                [(''a'', PyStr ''x.1''), ('''', PyStr ''x'')]]\<rparr>) \<and>
   CSVParser_row_values_in_column
     (trailing_comma_dataset
        \<lparr>list_of_dicts :=
           [[(''a'', PyStr ''x''), ('''', PyStr ''x'')],
            [(''a'', PyStr ''x.1''), ('''', PyStr ''x'')]]\<rparr>) '''' =
     [PyStr ''x'', PyStr ''x'']"
  by code_simp

text \<open>
  The columns after construction: the header row goes through \<open>_unique_vals\<close>, a supplied
  list is taken as it is. On a list of \<open>str\<close> the routine returns a list of \<open>str\<close>, so
  reading its result as names loses nothing, and the names are pairwise different.
\<close>

lemma unique_loop_strs:
  "\<forall>v \<in> set vals. \<exists>s. v = PyStr s \<Longrightarrow>
     \<forall>v \<in> set (unique_loop vals seen counts). \<exists>s. v = PyStr s"
proof (induction vals arbitrary: seen counts)
  case Nil
  show ?case by simp
next
  case (Cons val rest)
  from Cons.prems have rest: "\<forall>v \<in> set rest. \<exists>s. v = PyStr s" by simp
  show ?case
  proof (cases "val |\<notin>| seen")
    case True
    with Cons.prems Cons.IH[OF rest, of "finsert val seen" counts] show ?thesis by simp
  next
    case False
    obtain c nv where p: "probe val (counts val) seen = (c, nv)"
      by (cases "probe val (counts val) seen")
    from False p have eq: "unique_loop (val # rest) seen counts =
        nv # unique_loop rest (finsert nv seen) (counts(val := c))" by simp
    from probe_spec[OF p] have "\<exists>s. nv = PyStr s" by (auto simp: suffixed_def)
    with Cons.IH[OF rest, of "finsert nv seen" "counts(val := c)"] show ?thesis
      unfolding eq by (simp del: fun_upd_apply)
  qed
qed

lemma unique_names_are_strs:
  "map PyStr (map py_str (unique_vals (map PyStr names))) = unique_vals (map PyStr names)"
proof -
  have "\<forall>v \<in> set (unique_vals (map PyStr names)). \<exists>s. v = PyStr s"
    unfolding unique_vals_def by (rule unique_loop_strs) simp
  then have "\<And>v. v \<in> set (unique_vals (map PyStr names)) \<Longrightarrow> PyStr (py_str v) = v"
    by auto
  then show ?thesis by (simp add: map_idI)
qed

lemma distinct_unique_names: "distinct (map py_str (unique_vals (map PyStr names)))"
proof -
  let ?out = "unique_vals (map PyStr names)"
  have strs: "\<forall>v \<in> set ?out. \<exists>s. v = PyStr s"
    unfolding unique_vals_def by (rule unique_loop_strs) simp
  have "inj_on py_str (set ?out)"
  proof (rule inj_onI)
    fix x y
    assume x: "x \<in> set ?out" and y: "y \<in> set ?out" and same: "py_str x = py_str y"
    from strs x obtain a where a: "x = PyStr a" by blast
    from strs y obtain b where b: "y = PyStr b" by blast
    from a b same show "x = y" by simp
  qed
  then show ?thesis by (simp add: distinct_map distinct_unique_vals)
qed

lemma header_names_distinct: "distinct (get_column_names_from_header_row ext text)"
  by (simp add: get_column_names_from_header_row_def distinct_unique_names split: list.splits)

lemma from_csv_text_columns:
  assumes "from_csv_text ext text cols = Inr p"
  shows "((cols = None \<or> cols = Some []) \<longrightarrow> distinct (column_names p)) \<and>
         (\<forall>cs. cols = Some cs \<and> cs \<noteq> [] \<longrightarrow> list_all is_str cs \<and> column_names p = str_values cs)"
  using assms
  by (auto simp: from_csv_text_def CSVParser_init_def header_names_distinct
           split: option.splits if_splits)

lemma from_lines_columns:
  assumes "from_lines ext csv_lines cols = Inr p"
  obtains q where "from_csv_text ext (join_lines csv_lines) cols = Inr q"
    and "column_names p = column_names q"
  using assms by (auto simp: from_lines_def split: sum.splits)

lemma from_file_columns:
  assumes "from_file ext fs path cols = Inr p"
  obtains q t where "from_csv_text ext t cols = Inr q"
    and "column_names p = column_names q"
  using assms by (auto simp: from_file_def split: option.splits sum.splits error.splits if_splits)

text \<open>
  Claim C6, as amended. A dataset built by any of the three factories without supplied
  column names (\<open>None\<close> or the empty list) has no duplicate among its columns. With a
  non-empty supplied list, all of whose elements are strings, the columns are that list,
  unchanged.
\<close>

theorem factory_columns:
  assumes "from_csv_text ext text cols = Inr p \<or> from_lines ext csv_lines cols = Inr p \<or>
           from_file ext fs path cols = Inr p"
  shows "((cols = None \<or> cols = Some []) \<longrightarrow> distinct (column_names p)) \<and>
         (\<forall>cs. cols = Some cs \<and> cs \<noteq> [] \<longrightarrow> list_all is_str cs \<and> column_names p = str_values cs)"
proof -
  from assms obtain q t where "from_csv_text ext t cols = Inr q"
    and "column_names p = column_names q"
    by (metis from_lines_columns from_file_columns)
  with from_csv_text_columns[of ext t cols q] show ?thesis by simp
qed

text \<open>
  The header \<open>column 1, column 2, column 1\<close> becomes \<open>column 1, column 2, column 1.1\<close>.
\<close>

theorem factory_columns_witness:
  "from_lines test_extern [''column 1,column 2,column 1'', ''row 1,row 1:2,row 1:1''] None =
     Inr duplicate_header_dataset \<and>
   distinct (column_names duplicate_header_dataset) \<and>
   column_names duplicate_header_dataset = [''column 1'', ''column 2'', ''column 1.1'']"
proof -
  note built = duplicate_header_dataset_built
  then have "from_csv_text test_extern [] None = Inr duplicate_header_dataset \<or>
      from_lines test_extern [''column 1,column 2,column 1'', ''row 1,row 1:2,row 1:1''] None =
        Inr duplicate_header_dataset \<or>
      from_file test_extern Map.empty [] None = Inr duplicate_header_dataset" by blast
  from factory_columns[OF this] have "distinct (column_names duplicate_header_dataset)"
    by blast
  with built show ?thesis by (simp add: duplicate_header_dataset_def)
qed

text \<open>
  Claim C6 as stated fails: the supplied names \<open>k, k\<close> are the columns of the dataset.
\<close>

theorem supplied_columns_counterexample:
  "map_sum id column_names
     (from_csv_text test_extern (join_lines example_first_lines) (Some [Str ''k'', Str ''k''])) =
     Inr [''k'', ''k''] \<and>
   \<not> distinct [''k'', ''k'']"
  by code_simp

text \<open>
  \<open>get_row\<close> returns the first row that carries the key value, or the empty dictionary.
\<close>

lemma filter_find_hd:
  "find P xs = Some x \<Longrightarrow> \<exists>rest. filter P xs = x # rest"
  by (induction xs) (auto split: if_splits)

lemma get_row_absent:
  "\<forall>row \<in> set (list_of_dicts p). row_get row k \<noteq> key \<Longrightarrow> get_row p k key = []"
proof -
  assume "\<forall>row \<in> set (list_of_dicts p). row_get row k \<noteq> key"
  then have "filter (\<lambda>row. row_get row k = key) (list_of_dicts p) = []"
    by (simp add: filter_empty_conv)
  then show ?thesis by (simp add: get_row_def get_rows_def)
qed

lemma get_row_found:
  "find (\<lambda>row. row_get row k = key) (list_of_dicts p) = Some row \<Longrightarrow>
     get_row p k key = (if k \<in> set (column_names p) then row else [])"
  by (auto simp: get_row_def get_rows_def dest: filter_find_hd)

text \<open>
  Claim C8, as amended. On a dataset with at least one column, reading a cell by key
  value and column name does not raise: the getter of the index column gives the key
  column \<open>k\<close>, and the read returns the empty text when no row carries the key value in
  column \<open>k\<close> and when the first row that carries it has no entry for the column asked
  for. When that row has an entry (and \<open>k\<close> is among the columns), the read returns what the
  entry holds, text or \<open>None\<close>. On a dataset without columns the read raises the
  \<open>ValueError\<close> of the getter. On the null dataset the read returns the empty text.
\<close>

theorem get_value_reads:
  "(column_names p \<noteq> [] \<longrightarrow>
      (\<exists>k v. CSVParser_index_column p = Inr k \<and> get_value (CSVParser p) key col = Inr v \<and>
         ((\<forall>row \<in> set (list_of_dicts p). row_get row k \<noteq> key) \<longrightarrow> v = PyStr []) \<and>
         (\<forall>row. find (\<lambda>row. row_get row k = key) (list_of_dicts p) = Some row \<and>
                map_of row col = None \<longrightarrow> v = PyStr []) \<and>
         (\<forall>row cell. k \<in> set (column_names p) \<and>
                find (\<lambda>row. row_get row k = key) (list_of_dicts p) = Some row \<and>
                map_of row col = Some cell \<longrightarrow> v = cell))) \<and>
   (column_names p = [] \<longrightarrow>
      get_value (CSVParser p) key col =
        Inl (ValueError [Text ''No columns available to set or get the index column''])) \<and>
   get_value (NullCSVParser p) key col = Inr (PyStr [])"
proof (intro conjI impI)
  assume "column_names p \<noteq> []"
  then obtain k where k: "CSVParser_index_column p = Inr k"
    by (cases "column_names p") (auto simp: CSVParser_index_column_def)
  let ?v = "get_or_empty (get_row p k key) col"
  from k have v: "get_value (CSVParser p) key col = Inr ?v"
    by (simp add: CSVParser_get_value_def)
  have absent: "(\<forall>row \<in> set (list_of_dicts p). row_get row k \<noteq> key) \<longrightarrow> ?v = PyStr []"
    by (auto simp: get_row_absent get_or_empty_def)
  have lacking: "\<forall>row. find (\<lambda>row. row_get row k = key) (list_of_dicts p) = Some row \<and>
                map_of row col = None \<longrightarrow> ?v = PyStr []"
  proof (intro allI impI)
    fix row
    assume "find (\<lambda>row. row_get row k = key) (list_of_dicts p) = Some row \<and>
                map_of row col = None"
    with get_row_found[of k key p row] show "?v = PyStr []"
      by (auto simp: get_or_empty_def)
  qed
  have holding: "\<forall>row cell. k \<in> set (column_names p) \<and>
                find (\<lambda>row. row_get row k = key) (list_of_dicts p) = Some row \<and>
                map_of row col = Some cell \<longrightarrow> ?v = cell"
  proof (intro allI impI)
    fix row cell
    assume "k \<in> set (column_names p) \<and>
                find (\<lambda>row. row_get row k = key) (list_of_dicts p) = Some row \<and>
                map_of row col = Some cell"
    with get_row_found[of k key p row] show "?v = cell"
      by (auto simp: get_or_empty_def)
  qed
  from k v absent lacking holding
  show "\<exists>k v. CSVParser_index_column p = Inr k \<and> get_value (CSVParser p) key col = Inr v \<and>
         ((\<forall>row \<in> set (list_of_dicts p). row_get row k \<noteq> key) \<longrightarrow> v = PyStr []) \<and>
         (\<forall>row. find (\<lambda>row. row_get row k = key) (list_of_dicts p) = Some row \<and>
                map_of row col = None \<longrightarrow> v = PyStr []) \<and>
         (\<forall>row cell. k \<in> set (column_names p) \<and>
                find (\<lambda>row. row_get row k = key) (list_of_dicts p) = Some row \<and>
                map_of row col = Some cell \<longrightarrow> v = cell)"
    by blast
next
  assume "column_names p = []"
  then show "get_value (CSVParser p) key col =
        Inl (ValueError [Text ''No columns available to set or get the index column''])"
    by (simp add: CSVParser_get_value_def CSVParser_index_column_def)
next
  show "get_value (NullCSVParser p) key col = Inr (PyStr [])"
    by (simp add: NullCSVParser_get_value_def)
qed

text \<open>
  On the dataset built from the lines \<open>a,b\<close> / \<open>1\<close>: no row has the key \<open>9\<close>; the row of the
  key \<open>1\<close> has no entry for a column \<open>c\<close>, and its entry for column \<open>b\<close>, which the line
  leaves out, holds \<open>None\<close>.
\<close>

theorem get_value_reads_witness:
  "from_lines test_extern [''a,b'', ''1''] None = Inr short_line_dataset \<and>
   column_names short_line_dataset \<noteq> [] \<and>
   CSVParser_index_column short_line_dataset = Inr ''a'' \<and>
   ''a'' \<in> set (column_names short_line_dataset) \<and>
   filter (\<lambda>row. row_get row ''a'' = PyStr ''9'') (list_of_dicts short_line_dataset) = [] \<and>
   get_value (CSVParser short_line_dataset) (PyStr ''9'') ''a'' = Inr (PyStr []) \<and>
   find (\<lambda>row. row_get row ''a'' = PyStr ''1'') (list_of_dicts short_line_dataset) =
     Some [(''a'', PyStr ''1''), (''b'', PyNone)] \<and>
   map_of [(''a'', PyStr ''1''), (''b'', PyNone)] ''c'' = None \<and>
   get_value (CSVParser short_line_dataset) (PyStr ''1'') ''c'' = Inr (PyStr []) \<and>
   map_of [(''a'', PyStr ''1''), (''b'', PyNone)] ''b'' = Some PyNone \<and>
   get_value (CSVParser short_line_dataset) (PyStr ''1'') ''b'' = Inr PyNone"
proof -
  have built: "from_lines test_extern [''a,b'', ''1''] None = Inr short_line_dataset"
    by code_simp
  have cols: "column_names short_line_dataset \<noteq> []" by (simp add: short_line_dataset_def)
  have k: "CSVParser_index_column short_line_dataset = Inr ''a''"
    by (simp add: short_line_dataset_def CSVParser_index_column_def)
  have kcol: "''a'' \<in> set (column_names short_line_dataset)"
    by (simp add: short_line_dataset_def)
  have absent: "\<forall>row \<in> set (list_of_dicts short_line_dataset). row_get row ''a'' \<noteq> PyStr ''9''"
    by (simp add: short_line_dataset_def row_get_def)
  have none: "filter (\<lambda>row. row_get row ''a'' = PyStr ''9'') (list_of_dicts short_line_dataset) = []"
    by (simp add: short_line_dataset_def row_get_def)
  have found: "find (\<lambda>row. row_get row ''a'' = PyStr ''1'') (list_of_dicts short_line_dataset) =
     Some [(''a'', PyStr ''1''), (''b'', PyNone)]"
    by (simp add: short_line_dataset_def row_get_def)
  have lacks: "map_of [(''a'', PyStr ''1''), (''b'', PyNone)] ''c'' = None" by simp
  have holds: "map_of [(''a'', PyStr ''1''), (''b'', PyNone)] ''b'' = Some PyNone" by simp
  from get_value_reads[of short_line_dataset "PyStr ''9''" "''a''"] cols k absent
  have r1: "get_value (CSVParser short_line_dataset) (PyStr ''9'') ''a'' = Inr (PyStr [])"
    by auto
  from get_value_reads[of short_line_dataset "PyStr ''1''" "''c''"] cols k found lacks
  have r2: "get_value (CSVParser short_line_dataset) (PyStr ''1'') ''c'' = Inr (PyStr [])"
    by auto
  from get_value_reads[of short_line_dataset "PyStr ''1''" "''b''"] cols k kcol found holds
  have r3: "get_value (CSVParser short_line_dataset) (PyStr ''1'') ''b'' = Inr PyNone"
    by auto
  from built cols k kcol none found lacks holds r1 r2 r3 show ?thesis by blast
qed

text \<open>
  Claim C8 as stated fails on the dataset built from the empty text, which has no
  columns: the read raises.
\<close>

theorem get_value_no_columns_counterexample:
  "from_csv_text test_extern [] None = Inr empty_text_dataset \<and>
   get_value (CSVParser empty_text_dataset) (PyStr ''row'') ''col'' =
     Inl (ValueError [Text ''No columns available to set or get the index column''])"
  by code_simp

text \<open>
  Claim C9. On the null dataset every mutation (strip, transform, drop columns, drop rows
  by predicate or by values, cell write, setting the index column) returns the dataset
  unchanged and writing back leaves the files unchanged; the values of a column are the
  empty list, a cell is the empty text, \<open>get_rows\<close> and \<open>get_row\<close> find nothing; the getter
  of the index column returns the stored name without failing, which is the empty text on
  the null dataset as constructed; its origin is \<open>null\<close>; and a new comparer holds two such
  datasets.
\<close>

theorem null_dataset_inert:
  "strip_whitespace (NullCSVParser p) = NullCSVParser p \<and>
   apply_transform (NullCSVParser p) column_name func = Inr (NullCSVParser p) \<and>
   drop_columns (NullCSVParser p) names = NullCSVParser p \<and>
   drop_rows_by (NullCSVParser p) predicate = Inr (NullCSVParser p) \<and>
   drop_rows (NullCSVParser p) column_name row_values = Inr (NullCSVParser p) \<and>
   set_value (NullCSVParser p) key column_name new_value = Inr (NullCSVParser p) \<and>
   set_index_column (NullCSVParser p) v = Inr (NullCSVParser p) \<and>
   write_to_file ext fs (NullCSVParser p) = Inr fs \<and>
   row_values_in_column (NullCSVParser p) column_name = [] \<and>
   get_value (NullCSVParser p) key column_name = Inr (PyStr []) \<and>
   get_rows NullCSVParser_init column_name key = [] \<and>
   get_row NullCSVParser_init column_name key = [] \<and>
   file_path (attrs (NullCSVParser NullCSVParser_init)) = ''null'' \<and>
   index_column (NullCSVParser p) = Inr (index_column_attr p) \<and>
   index_column (NullCSVParser NullCSVParser_init) = Inr [] \<and>
   CSVComparer_init =
     \<lparr>first_file_parser = NullCSVParser NullCSVParser_init,
      second_file_parser = NullCSVParser NullCSVParser_init\<rparr>"
  by (simp add: NullCSVParser_strip_whitespace_def NullCSVParser_apply_transform_def
      NullCSVParser_drop_columns_def NullCSVParser_drop_rows_by_def NullCSVParser_drop_rows_def
      NullCSVParser_set_value_def NullCSVParser_set_index_column_def
      NullCSVParser_write_to_file_def NullCSVParser_row_values_in_column_def
      NullCSVParser_get_value_def NullCSVParser_index_column_def NullCSVParser_init_def
      get_rows_def get_row_def CSVComparer_init_def)

text \<open>
  A dictionary built from items: a lookup finds the last item with the key, and no key
  occurs twice.
\<close>

lemma fold_update_map_of:
  "map_of (fold (\<lambda>(key, val) d. AList.update key val d) items acc) =
     map_of acc ++ map_of (rev items)"
proof (induction items arbitrary: acc)
  case Nil
  show ?case by simp
next
  case (Cons x xs)
  obtain k v where x: "x = (k, v)" by (cases x)
  have "map_of (fold (\<lambda>(key, val) d. AList.update key val d) (x # xs) acc) =
      map_of (AList.update k v acc) ++ map_of (rev xs)"
    using Cons[of "AList.update k v acc"] x by simp
  also have "\<dots> = map_of acc ++ map_of (rev (x # xs))"
    by (rule ext) (simp add: x update_conv' map_add_def split: option.splits)
  finally show ?case .
qed

lemma fold_update_distinct:
  "distinct (map fst acc) \<Longrightarrow>
     distinct (map fst (fold (\<lambda>(key, val) d. AList.update key val d) items acc))"
  by (induction items arbitrary: acc) (auto simp: distinct_update)

lemma map_of_dict_of_items: "map_of (dict_of_items items) = map_of (rev items)"
  by (simp add: dict_of_items_def fold_update_map_of)

lemma distinct_dict_of_items: "distinct (map fst (dict_of_items items))"
  by (simp add: dict_of_items_def fold_update_distinct)

lemma strip_row_later_wins:
  assumes "row = r1 @ (c1, v1) # r2 @ (c2, v2) # r3"
    and "\<forall>k \<in> fst ` set r3. strip k \<noteq> strip c2"
  shows "map_of (strip_row row) (strip c2) = Some (strip_val v2)"
proof -
  let ?g = "\<lambda>(key, val). (strip key, strip_val val)"
  have tail: "map_of (rev (map ?g r3)) (strip c2) = None"
  proof -
    have "strip c2 \<notin> fst ` set (rev (map ?g r3))"
      using assms(2) by (auto simp: image_iff)
    then show ?thesis by (simp add: map_of_eq_None_iff)
  qed
  have "rev (map ?g row) =
      rev (map ?g r3) @ (strip c2, strip_val v2) # rev (map ?g (r1 @ (c1, v1) # r2))"
    by (simp add: assms(1))
  then have "map_of (rev (map ?g row)) (strip c2) = Some (strip_val v2)"
    using tail by (simp add: map_add_def)
  then show ?thesis by (simp add: strip_row_def map_of_dict_of_items)
qed

text \<open>
  Claim C10. Let \<open>c1\<close> and \<open>c2\<close> be two different columns of a dataset with the same
  stripped name. After \<open>strip_whitespace\<close> the columns are the stripped names in the old
  order, so the list has a duplicate. In every row that holds a cell for \<open>c1\<close> and, later,
  a cell for \<open>c2\<close>, with no cell after it whose key strips to the same name, the new row
  has that name only once and holds there the (stripped) value of the later cell \<open>c2\<close>;
  the value of \<open>c1\<close> is gone.
\<close>

theorem strip_whitespace_collapses:
  assumes "c1 \<in> set (column_names p)" and "c2 \<in> set (column_names p)"
    and "c1 \<noteq> c2" and "strip c1 = strip c2"
  shows "column_names (CSVParser_strip_whitespace p) = map strip (column_names p) \<and>
         \<not> distinct (column_names (CSVParser_strip_whitespace p)) \<and>
         length (list_of_dicts (CSVParser_strip_whitespace p)) = length (list_of_dicts p) \<and>
         (\<forall>i < length (list_of_dicts p). \<forall>r1 r2 r3 v1 v2.
            list_of_dicts p ! i = r1 @ (c1, v1) # r2 @ (c2, v2) # r3 \<and>
            (\<forall>k \<in> fst ` set r3. strip k \<noteq> strip c2) \<longrightarrow>
              map_of (list_of_dicts (CSVParser_strip_whitespace p) ! i) (strip c1) =
                Some (strip_val v2) \<and>
              distinct (map fst (list_of_dicts (CSVParser_strip_whitespace p) ! i)))"
proof (intro conjI allI impI)
  show "column_names (CSVParser_strip_whitespace p) = map strip (column_names p)"
    by (simp add: CSVParser_strip_whitespace_def)
next
  have "\<not> inj_on strip (set (column_names p))"
    using assms by (auto simp: inj_on_def)
  then show "\<not> distinct (column_names (CSVParser_strip_whitespace p))"
    by (simp add: CSVParser_strip_whitespace_def distinct_map)
next
  show "length (list_of_dicts (CSVParser_strip_whitespace p)) = length (list_of_dicts p)"
    by (simp add: CSVParser_strip_whitespace_def)
next
  fix i r1 r2 r3 v1 v2
  assume i: "i < length (list_of_dicts p)"
    and row: "list_of_dicts p ! i = r1 @ (c1, v1) # r2 @ (c2, v2) # r3 \<and>
            (\<forall>k \<in> fst ` set r3. strip k \<noteq> strip c2)"
  from i have new: "list_of_dicts (CSVParser_strip_whitespace p) ! i =
      strip_row (list_of_dicts p ! i)"
    by (simp add: CSVParser_strip_whitespace_def)
  from row strip_row_later_wins[of "list_of_dicts p ! i" r1 c1 v1 r2 c2 v2 r3] assms(4)
  show "map_of (list_of_dicts (CSVParser_strip_whitespace p) ! i) (strip c1) = Some (strip_val v2)"
    by (simp add: new)
  show "distinct (map fst (list_of_dicts (CSVParser_strip_whitespace p) ! i))"
    by (simp add: new strip_row_def distinct_dict_of_items)
qed

text \<open>
  The columns \<open>name\<close> and \<open>name\<close> with a blank: the values \<open>x\<close> and \<open>u\<close> of the first are
  lost.
\<close>

theorem strip_whitespace_collapses_witness:
  "''name'' \<in> set (column_names padded_name_dataset) \<and>
   ''name '' \<in> set (column_names padded_name_dataset) \<and>
   ''name'' \<noteq> ''name '' \<and> strip ''name'' = strip ''name '' \<and>
   list_of_dicts padded_name_dataset ! 0 =
     [(''id'', PyStr ''1'')] @ (''name'', PyStr ''x'') # [] @ (''name '', PyStr ''y '') # [] \<and>
   map_of (list_of_dicts (CSVParser_strip_whitespace padded_name_dataset) ! 0) (strip ''name'') =
     Some (strip_val (PyStr ''y '')) \<and>
   \<not> distinct (column_names (CSVParser_strip_whitespace padded_name_dataset)) \<and>
   CSVParser_strip_whitespace padded_name_dataset =
     padded_name_dataset
       \<lparr>list_of_dicts :=
          [[(''id'', PyStr ''1''), (''name'', PyStr ''y'')],
           [(''id'', PyStr ''2''), (''name'', PyStr ''w'')]],
        column_names := [''id'', ''name'', ''name'']\<rparr>"
proof -
  have c1: "''name'' \<in> set (column_names padded_name_dataset)"
    and c2: "''name '' \<in> set (column_names padded_name_dataset)"
    by (simp_all add: padded_name_dataset_def)
  have ne: "''name'' \<noteq> ''name ''" by simp
  have eq: "strip ''name'' = strip ''name ''" by code_simp
  have row: "list_of_dicts padded_name_dataset ! 0 =
     [(''id'', PyStr ''1'')] @ (''name'', PyStr ''x'') # [] @ (''name '', PyStr ''y '') # []"
    by (simp add: padded_name_dataset_def)
  have i: "0 < length (list_of_dicts padded_name_dataset)"
    by (simp add: padded_name_dataset_def)
  note t = strip_whitespace_collapses[OF c1 c2 ne eq]
  from t have dup: "\<not> distinct (column_names (CSVParser_strip_whitespace padded_name_dataset))"
    by blast
  from t have "\<forall>i < length (list_of_dicts padded_name_dataset). \<forall>r1 r2 r3 v1 v2.
            list_of_dicts padded_name_dataset ! i = r1 @ (''name'', v1) # r2 @ (''name '', v2) # r3 \<and>
            (\<forall>k \<in> fst ` set r3. strip k \<noteq> strip ''name '') \<longrightarrow>
              map_of (list_of_dicts (CSVParser_strip_whitespace padded_name_dataset) ! i)
                (strip ''name'') = Some (strip_val v2) \<and>
              distinct (map fst (list_of_dicts (CSVParser_strip_whitespace padded_name_dataset) ! i))"
    by blast
  with i row
  have cell: "map_of (list_of_dicts (CSVParser_strip_whitespace padded_name_dataset) ! 0)
      (strip ''name'') = Some (strip_val (PyStr ''y ''))"
    by (metis empty_iff image_empty list.set(1))
  have run: "CSVParser_strip_whitespace padded_name_dataset =
     padded_name_dataset
       \<lparr>list_of_dicts :=
          [[(''id'', PyStr ''1''), (''name'', PyStr ''y'')],
           [(''id'', PyStr ''2''), (''name'', PyStr ''w'')]],
        column_names := [''id'', ''name'', ''name'']\<rparr>"
    by code_simp
  from c1 c2 ne eq row cell dup run show ?thesis by blast
qed

end
